theory Spec2Isabelle
  imports Complex_Main
begin

section \<open>Time sections\<close>

text \<open>
  The module constant \<open>TIME_SECTIONS\<close>: a list of (label, start, end) triples, the
  bounds in seconds since midnight, with the arithmetic of the source left as written.
  Python numbers that reach the comparison are ints or floats; both are modelled by
  \<open>real\<close>, on which the chained comparison \<open>start <= v <= end\<close> is exact.
\<close>

definition TIME_SECTIONS :: "(string \<times> real \<times> real) list" where
  "TIME_SECTIONS =
     [(''0h-5h59'', 0, 5 * 3600 + 59 * 60),
      (''6h-11h59'', 6 * 3600, 11 * 3600 + 59 * 60),
      (''12h-17h59'', 12 * 3600, 17 * 3600 + 59 * 60),
      (''18h-23h59'', 18 * 3600, 23 * 3600 + 59 * 60)]"

text \<open>
  \<open>get_time_section\<close>: the linear scan over the sections; the first section whose
  closed interval holds the value wins, and \<open>None\<close> is returned when none does.
\<close>

fun scan_sections :: "(string \<times> real \<times> real) list \<Rightarrow> real \<Rightarrow> string option" where
  "scan_sections [] v = None"
| "scan_sections ((label, start, end) # rest) v =
     (if start \<le> v \<and> v \<le> end then Some label else scan_sections rest v)"

definition get_time_section :: "real \<Rightarrow> string option" where
  "get_time_section seconds_since_midnight = scan_sections TIME_SECTIONS seconds_since_midnight"

section \<open>Python values, exceptions and the outside world\<close>

text \<open>
  The exceptions the program can meet (a JSON decoding error is a \<open>ValueError\<close>).
  Both parsers catch \<open>Exception\<close>, which covers all of them; the inner handler of
  the iperf3 parser catches \<open>KeyError\<close> and \<open>ValueError\<close> only.
\<close>

datatype exn = OSError | ValueError | KeyError | TypeError | IndexError | StatisticsError
  | AttributeError

text \<open>
  What \<open>json.load\<close> returns: \<open>None\<close>, a bool, a number, a string, a list or a dict.
  Python ints and floats are both modelled by exact reals (no rounding, no overflow, no
  \<open>inf\<close> or \<open>nan\<close>); a dict is the association list of its entries, whose keys are
  distinct after loading.
\<close>

datatype json = JNull | JBool bool | JNum real | JStr string | JArr "json list"
  | JObj "(string \<times> json) list"

text \<open>A sample as the parsers build it: the tuple \<open>(second, throughput)\<close>. The qperf
  parser stores an int, the iperf3 parser stores whatever value the file holds under
  \<open>sum.start\<close>; the throughput is always a float.\<close>

type_synonym sample = "json \<times> real"

record datetime =
  year :: nat
  month :: nat
  day :: nat
  hour :: nat
  minute :: nat
  second :: nat

text \<open>The line each parser prints when it catches an exception: which parser, the
  file path, and the exception.\<close>

datatype diagnostic = Diagnostic string string exn

type_synonym parse_result = "datetime option \<times> sample list \<times> diagnostic list"

text \<open>
  The world outside the program: the directory listing (\<open>os.listdir\<close>), the lines of a
  text file (\<open>open\<close> and iteration), the value \<open>json.load\<close> gives for a file, each of
  which may raise, whether \<open>strptime\<close> accepts a string for the locale-dependent
  format \<open>%a, %d %b %Y %H:%M:%S GMT\<close>, the home directory, and the exception that
  opening a file for writing raises, if any.
\<close>

record world =
  listdir :: "string \<Rightarrow> exn + string list"
  read_lines :: "string \<Rightarrow> exn + string list"
  load_json :: "string \<Rightarrow> exn + json"
  gmt_time_ok :: "string \<Rightarrow> bool"
  home :: string
  open_write :: "string \<Rightarrow> exn option"

section \<open>String operations of the Python library\<close>

text \<open>\<open>s.split(c)\<close> for a one-character separator: never the empty list.\<close>

fun split_char :: "char \<Rightarrow> string \<Rightarrow> string list" where
  "split_char c [] = [[]]"
| "split_char c (x # xs) =
     (if x = c then [] # split_char c xs
      else (case split_char c xs of
              [] \<Rightarrow> [[x]]
            | y # ys \<Rightarrow> (x # y) # ys))"

text \<open>\<open>s.replace(old, '')\<close> for a non-empty \<open>old\<close>: every occurrence, left to right.\<close>

fun remove_all :: "string \<Rightarrow> string \<Rightarrow> string" where
  "remove_all old [] = []"
| "remove_all old (x # xs) =
     (if old \<noteq> [] \<and> take (length old) (x # xs) = old
      then remove_all old (drop (length old - 1) xs)
      else x # remove_all old xs)"

text \<open>\<open>sub in s\<close> on strings.\<close>

fun str_contains :: "string \<Rightarrow> string \<Rightarrow> bool" where
  "str_contains sub [] = (sub = [])"
| "str_contains sub (x # xs) = (take (length sub) (x # xs) = sub \<or> str_contains sub xs)"

text \<open>\<open>os.path.basename\<close> and \<open>os.path.join\<close> of two components (POSIX).\<close>

definition basename :: "string \<Rightarrow> string" where
  "basename p = last (split_char CHR ''/'' p)"

definition path_join :: "string \<Rightarrow> string \<Rightarrow> string" where
  "path_join a b =
     (if b \<noteq> [] \<and> hd b = CHR ''/'' then b
      else if a = [] \<or> last a = CHR ''/'' then a @ b
      else a @ ''/'' @ b)"

definition is_digit :: "char \<Rightarrow> bool" where
  "is_digit c = (c \<in> set ''0123456789'')"

definition digit_val :: "char \<Rightarrow> nat" where
  "digit_val c = of_char c - 48"

text \<open>\<open>int(s)\<close> on a string of decimal digits.\<close>

definition nat_of_digits :: "string \<Rightarrow> nat" where
  "nat_of_digits s = foldl (\<lambda>acc c. 10 * acc + digit_val c) 0 s"

text \<open>
  \<open>float(s)\<close> on a token of the class \<open>[\d.]+\<close> (digits and dots, the only strings the
  program passes): a number when the token has at most one dot and at least one digit,
  \<open>ValueError\<close> otherwise.
\<close>

definition float_of_token :: "string \<Rightarrow> exn + real" where
  "float_of_token s =
     (case split_char CHR ''.'' s of
        [ip] \<Rightarrow> if ip = [] then Inl ValueError else Inr (real (nat_of_digits ip))
      | [ip, fp] \<Rightarrow>
          if ip = [] \<and> fp = [] then Inl ValueError
          else Inr (real (nat_of_digits ip) + real (nat_of_digits fp) / 10 ^ length fp)
      | _ \<Rightarrow> Inl ValueError)"

section \<open>The filename timestamp: \<open>strptime(s, '%Y%m%d_%H%M%S')\<close>\<close>

text \<open>
  \<open>strptime\<close> turns the format into a regular expression, one group of ordered
  alternatives per directive, matches it at the start of the string, and rejects a match
  that leaves text over. Each directive is a function from the remaining text to its
  matches in the order the regex engine tries them, so that the head of the combined
  list is the match the engine finds.
\<close>

definition one_of :: "string \<Rightarrow> char \<Rightarrow> bool" where
  "one_of cs c = (c \<in> set cs)"

definition alt1 :: "(char \<Rightarrow> bool) \<Rightarrow> string \<Rightarrow> (nat \<times> string) list" where
  "alt1 p s = (case s of a # rest \<Rightarrow> if p a then [(digit_val a, rest)] else [] | [] \<Rightarrow> [])"

definition alt2 :: "(char \<Rightarrow> bool) \<Rightarrow> (char \<Rightarrow> bool) \<Rightarrow> string \<Rightarrow> (nat \<times> string) list" where
  "alt2 p q s =
     (case s of
        a # b # rest \<Rightarrow> if p a \<and> q b then [(10 * digit_val a + digit_val b, rest)] else []
      | _ \<Rightarrow> [])"

definition lit :: "char \<Rightarrow> string \<Rightarrow> string list" where
  "lit c s = (case s of a # rest \<Rightarrow> if a = c then [rest] else [] | [] \<Rightarrow> [])"

text \<open>\<open>%Y\<close> is \<open>\d\d\d\d\<close>.\<close>

definition field_Y :: "string \<Rightarrow> (nat \<times> string) list" where
  "field_Y s =
     (if 4 \<le> length s \<and> list_all is_digit (take 4 s)
      then [(nat_of_digits (take 4 s), drop 4 s)] else [])"

text \<open>\<open>%m\<close> is \<open>1[0-2]|0[1-9]|[1-9]\<close>.\<close>

definition field_m :: "string \<Rightarrow> (nat \<times> string) list" where
  "field_m s =
     alt2 (one_of ''1'') (one_of ''012'') s @
     alt2 (one_of ''0'') (one_of ''123456789'') s @
     alt1 (one_of ''123456789'') s"

text \<open>\<open>%d\<close> is \<open>3[0-1]|[1-2]\d|0[1-9]|[1-9]| [1-9]\<close>.\<close>

definition field_d :: "string \<Rightarrow> (nat \<times> string) list" where
  "field_d s =
     alt2 (one_of ''3'') (one_of ''01'') s @
     alt2 (one_of ''12'') is_digit s @
     alt2 (one_of ''0'') (one_of ''123456789'') s @
     alt1 (one_of ''123456789'') s @
     (case s of
        a # b # rest \<Rightarrow>
          if a = CHR '' '' \<and> one_of ''123456789'' b then [(digit_val b, rest)] else []
      | _ \<Rightarrow> [])"

text \<open>\<open>%H\<close> is \<open>2[0-3]|[0-1]\d|\d\<close>.\<close>

definition field_H :: "string \<Rightarrow> (nat \<times> string) list" where
  "field_H s =
     alt2 (one_of ''2'') (one_of ''0123'') s @
     alt2 (one_of ''01'') is_digit s @
     alt1 is_digit s"

text \<open>\<open>%M\<close> is \<open>[0-5]\d|\d\<close>.\<close>

definition field_M :: "string \<Rightarrow> (nat \<times> string) list" where
  "field_M s = alt2 (one_of ''012345'') is_digit s @ alt1 is_digit s"

text \<open>\<open>%S\<close> is \<open>6[0-1]|[0-5]\d|\d\<close>.\<close>

definition field_S :: "string \<Rightarrow> (nat \<times> string) list" where
  "field_S s =
     alt2 (one_of ''6'') (one_of ''01'') s @
     alt2 (one_of ''012345'') is_digit s @
     alt1 is_digit s"

definition strptime_matches :: "string \<Rightarrow> (datetime \<times> string) list" where
  "strptime_matches s =
     [(\<lparr>year = Y, month = m, day = d, hour = H, minute = M, second = S\<rparr>, r7).
        (Y, r1) \<leftarrow> field_Y s, (m, r2) \<leftarrow> field_m r1, (d, r3) \<leftarrow> field_d r2,
        r4 \<leftarrow> lit CHR ''_'' r3,
        (H, r5) \<leftarrow> field_H r4, (M, r6) \<leftarrow> field_M r5, (S, r7) \<leftarrow> field_S r6]"

definition leap_year :: "nat \<Rightarrow> bool" where
  "leap_year y = (y mod 4 = 0 \<and> (y mod 100 \<noteq> 0 \<or> y mod 400 = 0))"

definition days_in_month :: "nat \<Rightarrow> nat \<Rightarrow> nat" where
  "days_in_month y m =
     (if m = 2 then (if leap_year y then 29 else 28)
      else if m = 4 \<or> m = 6 \<or> m = 9 \<or> m = 11 then 30 else 31)"

text \<open>The checks of the \<open>datetime\<close> constructor on the matched fields.\<close>

definition valid_datetime :: "datetime \<Rightarrow> bool" where
  "valid_datetime t =
     (1 \<le> year t \<and> year t \<le> 9999 \<and> 1 \<le> month t \<and> month t \<le> 12 \<and>
      1 \<le> day t \<and> day t \<le> days_in_month (year t) (month t) \<and>
      hour t \<le> 23 \<and> minute t \<le> 59 \<and> second t \<le> 59)"

definition strptime :: "string \<Rightarrow> exn + datetime" where
  "strptime s =
     (case strptime_matches s of
        [] \<Rightarrow> Inl ValueError
      | (t, rest) # _ \<Rightarrow>
          if rest \<noteq> [] then Inl ValueError
          else if valid_datetime t then Inr t
          else Inl ValueError)"

text \<open>
  \<open>filename.split('_')[-2] + '_' + filename.split('_')[-1].replace(ext, '')\<close>: the
  index \<open>-2\<close> raises \<open>IndexError\<close> when the name has no underscore.
\<close>

definition timestamp_token :: "string \<Rightarrow> string \<Rightarrow> exn + string" where
  "timestamp_token filename ext =
     (let parts = split_char CHR ''_'' filename in
      if length parts < 2 then Inl IndexError
      else Inr (parts ! (length parts - 2) @ ''_'' @ remove_all ext (last parts)))"

section \<open>Sequencing of steps that may raise\<close>

definition ebind :: "'e + 'a \<Rightarrow> ('a \<Rightarrow> 'e + 'b) \<Rightarrow> 'e + 'b" where
  "ebind m f = (case m of Inl e \<Rightarrow> Inl e | Inr x \<Rightarrow> f x)"

section \<open>Parser A: qperf text files\<close>

text \<open>
  \<open>re.search(r'second (\d+): ([\d.]+) mbit/s', line)\<close>. Each of the two repetitions is
  followed by a character outside its class, so the only run that can match is the
  longest one; \<open>match_here\<close> matches the pattern at the start of the text and
  \<open>re_search\<close> tries every start position from the left. The result is the pair of
  the two groups.
\<close>

definition is_tok_char :: "char \<Rightarrow> bool" where
  "is_tok_char c = (is_digit c \<or> c = CHR ''.'')"

definition match_here :: "string \<Rightarrow> (string \<times> string) option" where
  "match_here s =
     (if take 7 s = ''second '' then
        (let r1 = drop 7 s; g1 = takeWhile is_digit r1; r2 = dropWhile is_digit r1 in
         if g1 \<noteq> [] \<and> take 2 r2 = '': '' then
           (let r3 = drop 2 r2; g2 = takeWhile is_tok_char r3; r4 = dropWhile is_tok_char r3 in
            if g2 \<noteq> [] \<and> take 7 r4 = '' mbit/s'' then Some (g1, g2) else None)
         else None)
      else None)"

fun re_search :: "string \<Rightarrow> (string \<times> string) option" where
  "re_search [] = match_here []"
| "re_search (c # cs) =
     (case match_here (c # cs) of Some m \<Rightarrow> Some m | None \<Rightarrow> re_search cs)"

text \<open>The loop over the lines, appending to \<open>throughputs\<close>; \<open>float\<close> may raise.\<close>

fun scan_lines :: "string list \<Rightarrow> sample list \<Rightarrow> exn + sample list" where
  "scan_lines [] throughputs = Inr throughputs"
| "scan_lines (line # rest) throughputs =
     (case re_search line of
        None \<Rightarrow> scan_lines rest throughputs
      | Some (g1, g2) \<Rightarrow>
          (case float_of_token g2 of
             Inl e \<Rightarrow> Inl e
           | Inr throughput \<Rightarrow>
               scan_lines rest (throughputs @ [(JNum (real (nat_of_digits g1)), throughput)])))"

text \<open>The body of the \<open>try\<close> block, and the function with its handler.\<close>

definition qperf_body :: "world \<Rightarrow> string \<Rightarrow> exn + datetime \<times> sample list" where
  "qperf_body w filepath =
     (let filename = basename filepath in
      ebind (timestamp_token filename ''.txt'') (\<lambda>timestamp_str.
      ebind (strptime timestamp_str) (\<lambda>start_time.
      ebind (read_lines w filepath) (\<lambda>lines.
      ebind (scan_lines lines []) (\<lambda>throughputs.
      Inr (start_time, throughputs))))))"

definition parse_qperf_file :: "world \<Rightarrow> string \<Rightarrow> parse_result" where
  "parse_qperf_file w filepath =
     (case qperf_body w filepath of
        Inr (start_time, throughputs) \<Rightarrow> (Some start_time, throughputs, [])
      | Inl e \<Rightarrow> (None, [], [Diagnostic ''qperf'' filepath e]))"

section \<open>Parser B: iperf3 JSON files\<close>

text \<open>\<open>v[key]\<close> with a string key: a dict gives the entry or \<open>KeyError\<close>, every other
  value gives \<open>TypeError\<close>.\<close>

definition py_getitem :: "json \<Rightarrow> string \<Rightarrow> exn + json" where
  "py_getitem v key =
     (case v of
        JObj kvs \<Rightarrow> (case map_of kvs key of Some x \<Rightarrow> Inr x | None \<Rightarrow> Inl KeyError)
      | _ \<Rightarrow> Inl TypeError)"

text \<open>\<open>for x in v\<close>: a list gives its elements, a dict its keys, a string its
  characters; the other values are not iterable.\<close>

definition py_iter :: "json \<Rightarrow> exn + json list" where
  "py_iter v =
     (case v of
        JArr xs \<Rightarrow> Inr xs
      | JObj kvs \<Rightarrow> Inr (map (\<lambda>(k, _). JStr k) kvs)
      | JStr s \<Rightarrow> Inr (map (\<lambda>c. JStr [c]) s)
      | _ \<Rightarrow> Inl TypeError)"

text \<open>\<open>v / 1e6\<close>: defined on numbers, and on bools as 0 and 1.\<close>

definition py_truediv :: "json \<Rightarrow> real \<Rightarrow> exn + real" where
  "py_truediv v d =
     (case v of
        JNum r \<Rightarrow> Inr (r / d)
      | JBool b \<Rightarrow> Inr ((if b then 1 else 0) / d)
      | _ \<Rightarrow> Inl TypeError)"

text \<open>\<open>datetime.strptime(v, '%a, %d %b %Y %H:%M:%S GMT')\<close>: \<open>TypeError\<close> unless the
  argument is a string; the parsed value is never used.\<close>

definition strptime_gmt :: "world \<Rightarrow> json \<Rightarrow> exn + unit" where
  "strptime_gmt w v =
     (case v of
        JStr s \<Rightarrow> if gmt_time_ok w s then Inr () else Inl ValueError
      | _ \<Rightarrow> Inl TypeError)"

text \<open>\<open>data['start']['timestamp']['time']\<close>.\<close>

definition json_time_field :: "json \<Rightarrow> exn + json" where
  "json_time_field data =
     ebind (py_getitem data ''start'') (\<lambda>a.
     ebind (py_getitem a ''timestamp'') (\<lambda>b.
     py_getitem b ''time''))"

text \<open>The inner \<open>try\<close> block and its handler for \<open>KeyError\<close> and \<open>ValueError\<close>.\<close>

definition iperf_start_time :: "world \<Rightarrow> string \<Rightarrow> json \<Rightarrow> exn + datetime" where
  "iperf_start_time w filename data =
     (case
        ebind (json_time_field data) (\<lambda>start_time_str.
        ebind (strptime_gmt w start_time_str) (\<lambda>json_time.
        ebind (timestamp_token filename ''.json'') (\<lambda>filename_time_str.
        ebind (strptime filename_time_str) (\<lambda>filename_time.
        Inr filename_time))))
      of
        Inr start_time \<Rightarrow> Inr start_time
      | Inl e \<Rightarrow>
          if e = KeyError \<or> e = ValueError
          then ebind (timestamp_token filename ''.json'') strptime
          else Inl e)"

text \<open>One pass of the loop over \<open>data['intervals']\<close>, and the loop.\<close>

definition interval_sample :: "json \<Rightarrow> exn + sample" where
  "interval_sample interval =
     ebind (py_getitem interval ''sum'') (\<lambda>s1.
     ebind (py_getitem s1 ''start'') (\<lambda>second.
     ebind (py_getitem interval ''sum'') (\<lambda>s2.
     ebind (py_getitem s2 ''bits_per_second'') (\<lambda>bps.
     ebind (py_truediv bps 1000000) (\<lambda>throughput.
     Inr (second, throughput))))))"

fun iperf_samples :: "json list \<Rightarrow> sample list \<Rightarrow> exn + sample list" where
  "iperf_samples [] throughputs = Inr throughputs"
| "iperf_samples (interval # rest) throughputs =
     (case interval_sample interval of
        Inl e \<Rightarrow> Inl e
      | Inr smp \<Rightarrow> iperf_samples rest (throughputs @ [smp]))"

definition iperf_body :: "world \<Rightarrow> string \<Rightarrow> exn + datetime \<times> sample list" where
  "iperf_body w filepath =
     (let filename = basename filepath in
      ebind (load_json w filepath) (\<lambda>data.
      ebind (iperf_start_time w filename data) (\<lambda>start_time.
      ebind (py_getitem data ''intervals'') (\<lambda>ivs.
      ebind (py_iter ivs) (\<lambda>intervals.
      ebind (iperf_samples intervals []) (\<lambda>throughputs.
      Inr (start_time, throughputs)))))))"

definition parse_iperf_file :: "world \<Rightarrow> string \<Rightarrow> parse_result" where
  "parse_iperf_file w filepath =
     (case iperf_body w filepath of
        Inr (start_time, throughputs) \<Rightarrow> (Some start_time, throughputs, [])
      | Inl e \<Rightarrow> (None, [], [Diagnostic ''iperf3'' filepath e]))"

section \<open>The aggregator\<close>

text \<open>The nested dict \<open>data[interface][section]\<close> of lists of throughputs.\<close>

type_synonym buckets = "string \<rightharpoonup> (string \<rightharpoonup> real list)"

definition empty_sections :: "string \<rightharpoonup> real list" where
  "empty_sections =
     [''0h-5h59'' \<mapsto> [], ''6h-11h59'' \<mapsto> [], ''12h-17h59'' \<mapsto> [], ''18h-23h59'' \<mapsto> []]"

definition initial_data :: buckets where
  "initial_data = [''wlan0'' \<mapsto> empty_sections, ''wlan1'' \<mapsto> empty_sections]"

text \<open>\<open>data[interface][section]\<close>, and \<open>data[interface][section].append(x)\<close>.\<close>

definition lookup_bucket :: "buckets \<Rightarrow> string \<Rightarrow> string \<Rightarrow> exn + real list" where
  "lookup_bucket data interface section =
     (case data interface of
        None \<Rightarrow> Inl KeyError
      | Some m \<Rightarrow> (case m section of None \<Rightarrow> Inl KeyError | Some xs \<Rightarrow> Inr xs))"

definition append_bucket :: "buckets \<Rightarrow> string \<Rightarrow> string \<Rightarrow> real \<Rightarrow> exn + buckets" where
  "append_bucket data interface section x =
     (case data interface of
        None \<Rightarrow> Inl KeyError
      | Some m \<Rightarrow>
          (case m section of
             None \<Rightarrow> Inl KeyError
           | Some xs \<Rightarrow> Inr (data(interface \<mapsto> m(section \<mapsto> xs @ [x])))))"

text \<open>
  \<open>start_time.hour * 3600 + start_time.minute * 60 + start_time.second + second\<close>: the
  last addition raises \<open>TypeError\<close> unless \<open>second\<close> is a number (a bool counts as 0
  or 1). Nothing reduces the sum modulo the length of a day.
\<close>

definition seconds_since_midnight :: "datetime \<Rightarrow> json \<Rightarrow> exn + real" where
  "seconds_since_midnight start_time sec =
     (let base = real (hour start_time * 3600 + minute start_time * 60 + second start_time) in
      case sec of
        JNum r \<Rightarrow> Inr (base + r)
      | JBool b \<Rightarrow> Inr (base + (if b then 1 else 0))
      | _ \<Rightarrow> Inl TypeError)"

text \<open>The loop over the samples of one file (\<open>sec\<close> is the loop variable \<open>second\<close>
  of the source). \<open>if section:\<close> is false for \<open>None\<close> and for the empty string.\<close>

fun process_samples :: "datetime \<Rightarrow> string \<Rightarrow> sample list \<Rightarrow> buckets \<Rightarrow> exn + buckets" where
  "process_samples start_time interface [] data = Inr data"
| "process_samples start_time interface ((sec, throughput) # rest) data =
     (case seconds_since_midnight start_time sec of
        Inl e \<Rightarrow> Inl e
      | Inr v \<Rightarrow>
          (case get_time_section v of
             None \<Rightarrow> process_samples start_time interface rest data
           | Some section \<Rightarrow>
               if section = [] then process_samples start_time interface rest data
               else
                 (case append_bucket data interface section throughput of
                    Inl e \<Rightarrow> Inl e
                  | Inr data' \<Rightarrow> process_samples start_time interface rest data')))"

definition interface_of :: "string \<Rightarrow> string option" where
  "interface_of filename =
     (if str_contains ''wlan0'' filename then Some ''wlan0''
      else if str_contains ''wlan1'' filename then Some ''wlan1''
      else None)"

text \<open>The loop over the directory entries; the second component collects what the
  parser printed.\<close>

fun process_entries ::
  "(string \<Rightarrow> parse_result) \<Rightarrow> string \<Rightarrow> string \<Rightarrow> string list \<Rightarrow>
   buckets \<times> diagnostic list \<Rightarrow> exn + buckets \<times> diagnostic list" where
  "process_entries parse_func directory file_pattern [] acc = Inr acc"
| "process_entries parse_func directory file_pattern (filename # rest) (data, out) =
     (if str_contains file_pattern filename then
        (case parse_func (path_join directory filename) of
           (None, throughputs, msgs) \<Rightarrow>
             process_entries parse_func directory file_pattern rest (data, out @ msgs)
         | (Some start_time, throughputs, msgs) \<Rightarrow>
             (case interface_of filename of
                None \<Rightarrow>
                  process_entries parse_func directory file_pattern rest (data, out @ msgs)
              | Some interface \<Rightarrow>
                  (case process_samples start_time interface throughputs data of
                     Inl e \<Rightarrow> Inl e
                   | Inr data' \<Rightarrow>
                       process_entries parse_func directory file_pattern rest
                         (data', out @ msgs))))
      else process_entries parse_func directory file_pattern rest (data, out))"

definition process_files ::
  "world \<Rightarrow> string \<Rightarrow> (string \<Rightarrow> parse_result) \<Rightarrow> string \<Rightarrow>
   exn + buckets \<times> diagnostic list" where
  "process_files w directory parse_func file_pattern =
     (case listdir w directory of
        Inl e \<Rightarrow> Inl e
      | Inr names \<Rightarrow>
          process_entries parse_func directory file_pattern names (initial_data, []))"

section \<open>The statistics reducer\<close>

text \<open>
  The float operations of the Python library that \<open>calc_stats\<close> calls: \<open>sum\<close> of a
  list, division of a float by the length, \<open>statistics.stdev\<close> (which may raise), the
  literal \<open>0.0\<close>, \<open>round(x, n)\<close> and \<open>str\<close>. Their results depend on binary rounding
  and on the version of the library (\<open>sum\<close> compensates its rounding errors in recent
  versions, \<open>statistics.stdev\<close> raises on a list that holds \<open>inf\<close> or \<open>nan\<close>), so
  they are parameters of the model: what is proved for every such library holds for
  Python's. The type \<open>'v\<close> is the type of the values in the lists.
\<close>

record 'v floatlib =
  fl_sum :: "'v list \<Rightarrow> 'v"
  fl_div :: "'v \<Rightarrow> nat \<Rightarrow> 'v"
  fl_stdev :: "'v list \<Rightarrow> exn + 'v"
  fl_zero :: 'v
  fl_round :: "'v \<Rightarrow> nat \<Rightarrow> 'v"
  fl_str :: "'v \<Rightarrow> string"

text \<open>The separator \<open>" \<plusminus> "\<close>: a space, the plus-minus sign (code point B1), a space.\<close>

definition plus_minus :: string where
  "plus_minus = [CHR '' '', CHR 0xB1, CHR '' '']"

definition calc_stats :: "'v floatlib \<Rightarrow> 'v list \<Rightarrow> exn + string" where
  "calc_stats fl values =
     (if values = [] then Inr (''0.0'' @ plus_minus @ ''0.0'')
      else
        (let mean = fl_div fl (fl_sum fl values) (length values) in
         ebind (if 1 < length values then fl_stdev fl values else Inr (fl_zero fl)) (\<lambda>stddev.
         Inr (fl_str fl (fl_round fl mean 2) @ plus_minus @ fl_str fl (fl_round fl stddev 2)))))"

section \<open>The reporters\<close>

text \<open>The four \<open>calc_stats\<close> calls that both reporters make for a section.\<close>

definition row_stats ::
  "real floatlib \<Rightarrow> buckets \<Rightarrow> buckets \<Rightarrow> string \<Rightarrow>
   exn + string \<times> string \<times> string \<times> string" where
  "row_stats fl qperf_data iperf_data section =
     ebind (ebind (lookup_bucket qperf_data ''wlan0'' section) (calc_stats fl)) (\<lambda>w0_q.
     ebind (ebind (lookup_bucket qperf_data ''wlan1'' section) (calc_stats fl)) (\<lambda>w1_q.
     ebind (ebind (lookup_bucket iperf_data ''wlan0'' section) (calc_stats fl)) (\<lambda>w0_i.
     ebind (ebind (lookup_bucket iperf_data ''wlan1'' section) (calc_stats fl)) (\<lambda>w1_i.
     Inr (w0_q, w1_q, w0_i, w1_i)))))"

text \<open>The format specifications \<open><14\<close> and \<open>^16\<close>.\<close>

definition ljust :: "nat \<Rightarrow> string \<Rightarrow> string" where
  "ljust n s = s @ replicate (n - length s) CHR '' ''"

definition center :: "nat \<Rightarrow> string \<Rightarrow> string" where
  "center n s =
     (let pad = n - length s; left = pad div 2 in
      replicate left CHR '' '' @ s @ replicate (pad - left) CHR '' '')"

definition table_row :: "string \<Rightarrow> string \<times> string \<times> string \<times> string \<Rightarrow> string" where
  "table_row section cells =
     (case cells of (w0_q, w1_q, w0_i, w1_i) \<Rightarrow>
        ljust 14 section @ '' | '' @ center 16 w0_q @ '' | '' @ center 16 w1_q @ '' | '' @
        center 16 w0_i @ '' | '' @ center 16 w1_i)"

definition table_header :: "string list" where
  "table_header =
     [CHR 0x0A # ''WiFi Throughput Statistics (Mbps):'',
      ''Time Section   | wlan0 qperf      | wlan1 qperf      | wlan0 iperf3     | wlan1 iperf3     '',
      replicate 80 CHR ''-'']"

text \<open>
  \<open>print_table\<close>: the strings printed, one per call of \<open>print\<close>, and the exception that
  ended the function, if any: nothing catches an exception here, and the lines printed
  before it stay printed.
\<close>

fun table_rows ::
  "real floatlib \<Rightarrow> buckets \<Rightarrow> buckets \<Rightarrow> string list \<Rightarrow> string list \<Rightarrow>
   string list \<times> exn option" where
  "table_rows fl qperf_data iperf_data [] out = (out, None)"
| "table_rows fl qperf_data iperf_data (section # rest) out =
     (case row_stats fl qperf_data iperf_data section of
        Inl e \<Rightarrow> (out, Some e)
      | Inr cells \<Rightarrow>
          table_rows fl qperf_data iperf_data rest (out @ [table_row section cells]))"

definition print_table ::
  "real floatlib \<Rightarrow> buckets \<Rightarrow> buckets \<Rightarrow> string list \<times> exn option" where
  "print_table fl qperf_data iperf_data =
     table_rows fl qperf_data iperf_data (map fst TIME_SECTIONS) table_header"

definition csv_header :: string where
  "csv_header =
     ''Time Section,wlan0 qperf (Mbps),wlan1 qperf (Mbps),wlan0 iperf3 (Mbps),wlan1 iperf3 (Mbps)''
     @ [CHR 0x0A]"

definition csv_row :: "string \<Rightarrow> string \<times> string \<times> string \<times> string \<Rightarrow> string" where
  "csv_row section cells =
     (case cells of (w0_q, w1_q, w0_i, w1_i) \<Rightarrow>
        section @ '','' @ w0_q @ '','' @ w1_q @ '','' @ w0_i @ '','' @ w1_i @ [CHR 0x0A])"

text \<open>The loop of \<open>save_to_csv\<close>: the text written so far, and the exception that
  stopped the loop, if any.\<close>

fun csv_rows ::
  "real floatlib \<Rightarrow> buckets \<Rightarrow> buckets \<Rightarrow> string list \<Rightarrow> string \<Rightarrow>
   string \<times> exn option" where
  "csv_rows fl qperf_data iperf_data [] f = (f, None)"
| "csv_rows fl qperf_data iperf_data (section # rest) f =
     (case row_stats fl qperf_data iperf_data section of
        Inl e \<Rightarrow> (f, Some e)
      | Inr cells \<Rightarrow> csv_rows fl qperf_data iperf_data rest (f @ csv_row section cells))"

text \<open>
  \<open>save_to_csv\<close>: the content of the output file (\<open>None\<close> when it could not be opened)
  and the exception that the handler caught and reported, if any. Once the file is open,
  writing to it is taken to succeed.
\<close>

definition save_to_csv ::
  "world \<Rightarrow> real floatlib \<Rightarrow> buckets \<Rightarrow> buckets \<Rightarrow> string option \<times> exn option" where
  "save_to_csv w fl qperf_data iperf_data =
     (let output_file =
            path_join (path_join (home w) ''build-qperf'') ''wifi_throughput_stats.csv'' in
      case open_write w output_file of
        Some e \<Rightarrow> (None, Some e)
      | None \<Rightarrow>
          (case csv_rows fl qperf_data iperf_data (map fst TIME_SECTIONS) csv_header of
             (f, r) \<Rightarrow> (Some f, r)))"

section \<open>The float library in exact arithmetic\<close>

text \<open>
  One library for the concrete runs: every operation computed on the reals without
  rounding error. It gives Python's results where Python's operations are exact, as they
  are on the lists of the concrete runs below (the empty list, the single values 50.0
  and 100.0, and the values 0.125, 0.25, 0.375, whose sum, mean, variance and standard
  deviation are binary fractions); it is not Python's library on other inputs (no binary
  rounding, no \<open>inf\<close> or \<open>nan\<close>, no negative zero, no exponent form of the text).
\<close>

definition digit_char :: "nat \<Rightarrow> char" where
  "digit_char n = ''0123456789'' ! n"

text \<open>The decimal text of a natural number.\<close>

fun str_nat :: "nat \<Rightarrow> string" where
  "str_nat n = (if n < 10 then [digit_char n] else str_nat (n div 10) @ [digit_char (n mod 10)])"

declare str_nat.simps [simp del]

text \<open>Rounding to the nearest integer, a tie going to the even neighbour.\<close>

definition round_half_even :: "real \<Rightarrow> int" where
  "round_half_even x =
     (let f = \<lfloor>x\<rfloor>; r = x - of_int f in
      if r < 1 / 2 then f
      else if 1 / 2 < r then f + 1
      else if even f then f else f + 1)"

text \<open>Rounding to a number of decimals.\<close>

definition exact_round :: "real \<Rightarrow> nat \<Rightarrow> real" where
  "exact_round x n = sgn x * of_int (round_half_even (\<bar>x\<bar> * 10 ^ n)) / 10 ^ n"

text \<open>The magnitude of a number in hundredths, rounded.\<close>

definition hundredths :: "real \<Rightarrow> nat" where
  "hundredths x = nat (round_half_even (\<bar>x\<bar> * 100))"

text \<open>
  The text of a number of at most two decimals: the sign, the integer part, the dot, and
  the shortest fraction of at least one digit (50.0, 12.5, 12.34).
\<close>

definition decimal_str :: "real \<Rightarrow> string" where
  "decimal_str x =
     (let k = hundredths x; ip = k div 100; fp = k mod 100 in
      (if x < 0 then ''-'' else []) @ str_nat ip @ ''.'' @
      (if fp mod 10 = 0 then [digit_char (fp div 10)]
       else [digit_char (fp div 10), digit_char (fp mod 10)]))"

text \<open>The square root of the sample variance; \<open>statistics.stdev\<close> raises
  \<open>StatisticsError\<close> on fewer than two values.\<close>

definition exact_stdev :: "real list \<Rightarrow> exn + real" where
  "exact_stdev xs =
     (if length xs < 2 then Inl StatisticsError
      else
        (let m = sum_list xs / real (length xs) in
         Inr (sqrt (sum_list (map (\<lambda>x. (x - m)\<^sup>2) xs) / real (length xs - 1)))))"

definition exact_floatlib :: "real floatlib" where
  "exact_floatlib =
     \<lparr>fl_sum = sum_list, fl_div = (\<lambda>x n. x / real n), fl_stdev = exact_stdev,
      fl_zero = 0, fl_round = exact_round, fl_str = decimal_str\<rparr>"

section \<open>Notions of the specification\<close>


text \<open>The arithmetic mean and the unbiased sample standard deviation, as the
  specification names them.\<close>

definition spec_mean :: "real list \<Rightarrow> real" where
  "spec_mean xs = sum_list xs / real (length xs)"

definition spec_sample_stddev :: "real list \<Rightarrow> real" where
  "spec_sample_stddev xs =
     sqrt (sum_list (map (\<lambda>x. (x - spec_mean xs)\<^sup>2) xs) / (real (length xs) - 1))"


text \<open>Seconds since midnight wrapped to a single day.\<close>

definition wrap_day :: "real \<Rightarrow> real" where
  "wrap_day v = v - 86400 * of_int \<lfloor>v / 86400\<rfloor>"

text \<open>
  A sample of a run falls into a section: its seconds since midnight are defined and,
  wrapped to a single day, lie within the bounds the section has in \<open>TIME_SECTIONS\<close>.
\<close>

definition sample_in_section :: "datetime \<Rightarrow> json \<Rightarrow> string \<Rightarrow> bool" where
  "sample_in_section start_time sec section =
     (case seconds_since_midnight start_time sec of
        Inl e \<Rightarrow> False
      | Inr v \<Rightarrow>
          list_ex (\<lambda>(label, start, end).
            label = section \<and> start \<le> wrap_day v \<and> wrap_day v \<le> end) TIME_SECTIONS)"

text \<open>Reading a CSV text back: the lines, each split at its commas.\<close>

definition csv_reader :: "string \<Rightarrow> string list list" where
  "csv_reader text =
     (let ls = split_char (CHR 0x0A) text in
      map (split_char CHR '','') (if last ls = [] then butlast ls else ls))"

text \<open>
  The formatted statistics of one bucket: the text \<open>calc_stats\<close> gives for the list
  stored under an interface and a section.
\<close>

definition stat_text :: "real floatlib \<Rightarrow> buckets \<Rightarrow> string \<Rightarrow> string \<Rightarrow> exn + string" where
  "stat_text fl data interface section =
     (case lookup_bucket data interface section of
        Inl e \<Rightarrow> Inl e
      | Inr xs \<Rightarrow> calc_stats fl xs)"

text \<open>
  The four formatted strings of a time section, in the order of the columns (qperf on
  wlan0 and wlan1, then iperf3 on wlan0 and wlan1), when all four can be computed.
\<close>

definition section_texts ::
  "real floatlib \<Rightarrow> buckets \<Rightarrow> buckets \<Rightarrow> string \<Rightarrow> (string \<times> string \<times> string \<times> string) option" where
  "section_texts fl qperf_data iperf_data section =
     (case (stat_text fl qperf_data ''wlan0'' section, stat_text fl qperf_data ''wlan1'' section,
            stat_text fl iperf_data ''wlan0'' section, stat_text fl iperf_data ''wlan1'' section) of
        (Inr a, Inr b, Inr c, Inr d) \<Rightarrow> Some (a, b, c, d)
      | _ \<Rightarrow> None)"

text \<open>An aggregated structure holds a list for each of the two interfaces and each of
  the four sections.\<close>

definition has_buckets :: "buckets \<Rightarrow> bool" where
  "has_buckets data =
     list_all (\<lambda>interface. list_all (\<lambda>section.
       case lookup_bucket data interface section of Inl e \<Rightarrow> False | Inr xs \<Rightarrow> True)
       (map fst TIME_SECTIONS)) [''wlan0'', ''wlan1'']"

section \<open>Worlds for concrete runs\<close>

text \<open>A world whose directories hold one entry, with the given lines as the content of
  every text file and the given value as the content of every JSON file.\<close>

definition single_file_world :: "string \<Rightarrow> string list \<Rightarrow> json \<Rightarrow> world" where
  "single_file_world name lines content =
     \<lparr>listdir = (\<lambda>_. Inr [name]), read_lines = (\<lambda>_. Inr lines),
      load_json = (\<lambda>_. Inr content), gmt_time_ok = (\<lambda>_. True),
      home = ''/home/user'', open_write = (\<lambda>_. None)\<rparr>"

text \<open>The iperf3 file of the specification's example, and the world that holds it.\<close>

definition example_iperf_name :: string where
  "example_iperf_name = ''wlan1_iperf3_throughput_20250605_120000.json''"

definition example_iperf_content :: json where
  "example_iperf_content =
     JObj [(''intervals'',
       JArr [JObj [(''sum'',
         JObj [(''start'', JNum 0), (''bits_per_second'', JNum 100000000)])]])]"

definition example_iperf_dir :: string where
  "example_iperf_dir = ''/home/user/build-qperf/iperf3_result''"

definition example_iperf_world :: world where
  "example_iperf_world = single_file_world example_iperf_name [] example_iperf_content"

text \<open>An iperf3 file whose interval holds a string where the offset should be, and one
  whose embedded time field holds a number.\<close>

definition example_bad_offset_content :: json where
  "example_bad_offset_content =
     JObj [(''intervals'',
       JArr [JObj [(''sum'',
         JObj [(''start'', JStr ''abc''), (''bits_per_second'', JNum 100000000)])]])]"

definition example_bad_time_content :: json where
  "example_bad_time_content =
     JObj [(''start'', JObj [(''timestamp'', JObj [(''time'', JNum 12345)])]),
           (''intervals'',
       JArr [JObj [(''sum'',
         JObj [(''start'', JNum 0), (''bits_per_second'', JNum 100000000)])]])]"

text \<open>The buckets that the example gives, and the two texts that occur in their
  statistics.\<close>

definition example_buckets :: buckets where
  "example_buckets = initial_data(''wlan1'' \<mapsto> empty_sections(''12h-17h59'' \<mapsto> [100]))"

definition text_empty :: string where
  "text_empty = ''0.0 '' @ [CHR 0xB1] @ '' 0.0''"

definition text_hundred :: string where
  "text_hundred = ''100.0 '' @ [CHR 0xB1] @ '' 0.0''"

text \<open>A qperf file with a good line, and one with a good line followed by a line whose
  throughput token is not a float literal.\<close>

definition example_qperf_path :: string where
  "example_qperf_path =
     ''/home/user/build-qperf/qperf_result/wlan0_qperf_throughput_rtt_20250605_000000.txt''"

definition example_good_lines :: "string list" where
  "example_good_lines = [''second 0: 50.0 mbit/s'']"

definition example_bad_lines :: "string list" where
  "example_bad_lines = [''second 0: 50.0 mbit/s'', ''second 1: 1.2.3 mbit/s'']"

section \<open>Properties of the time sections\<close>

lemma get_time_section_cases:
  "get_time_section v =
     (if 0 \<le> v \<and> v \<le> 21540 then Some ''0h-5h59''
      else if 21600 \<le> v \<and> v \<le> 43140 then Some ''6h-11h59''
      else if 43200 \<le> v \<and> v \<le> 64740 then Some ''12h-17h59''
      else if 64800 \<le> v \<and> v \<le> 86340 then Some ''18h-23h59''
      else None)"
  by (simp add: get_time_section_def TIME_SECTIONS_def)

lemma get_time_section_outside_day:
  "v < 0 \<or> 86400 \<le> v \<Longrightarrow> get_time_section v = None"
  by (auto simp: get_time_section_cases)

lemma get_time_section_21600: "get_time_section 21600 = Some ''6h-11h59''"
  by (simp add: get_time_section_cases)

text \<open>
  Claim C1. The spot checks say that 21599 falls into section 0h-5h59 and 86399 into
  section 18h-23h59. Each section of the source ends at the start of its last minute
  (5h59m00s is second 21540), so the last 59 seconds of every section match no section:
  the scan returns \<open>None\<close> at 21599 and at 86399.
\<close>

theorem get_time_section_last_minute_unmatched:
  "get_time_section 21599 = None \<and> get_time_section 86399 = None"
  by (simp add: get_time_section_cases)


section \<open>Basic facts about the library operations\<close>

lemma ebind_Inl [simp]: "ebind (Inl e) f = Inl e"
  by (simp add: ebind_def)

lemma ebind_Inr [simp]: "ebind (Inr x) f = f x"
  by (simp add: ebind_def)

lemma split_char_length: "length (split_char c s) = Suc (length (filter (\<lambda>x. x = c) s))"
  by (induction s) (auto split: list.splits)

lemma split_char_not_Nil [simp]: "split_char c s \<noteq> []"
  using split_char_length [of c s] by auto

lemma split_char_no_sep: "c \<notin> set s \<Longrightarrow> split_char c s = [s]"
  by (induction s) auto

lemma last_split_char_sep: "last (split_char c (xs @ c # ys)) = last (split_char c ys)"
proof (induction xs)
  case Nil
  then show ?case by simp
next
  case (Cons x xs)
  have "2 \<le> length (split_char c (xs @ c # ys))"
    by (simp add: split_char_length)
  then obtain u v vs where "split_char c (xs @ c # ys) = u # v # vs"
    by (cases "split_char c (xs @ c # ys)"; cases "tl (split_char c (xs @ c # ys))") auto
  with Cons show ?case by auto
qed

lemma basename_path_join:
  assumes "CHR ''/'' \<notin> set b"
  shows "basename (path_join a b) = b"
proof -
  have b: "last (split_char CHR ''/'' b) = b"
    using assms by (simp add: split_char_no_sep)
  have nb: "\<not> (b \<noteq> [] \<and> hd b = CHR ''/'')"
    using assms by (cases b) auto
  show ?thesis
  proof (cases "a = []")
    case True
    with b nb show ?thesis by (simp add: basename_def path_join_def)
  next
    case False
    then obtain a' z where a: "a = a' @ [z]" by (metis rev_exhaust)
    show ?thesis
    proof (cases "z = CHR ''/''")
      case True
      with a b nb show ?thesis
        using last_split_char_sep [of "CHR ''/''" a' b]
        by (simp add: basename_def path_join_def)
    next
      case False
      with a b nb show ?thesis
        using last_split_char_sep [of "CHR ''/''" a b]
        by (simp add: basename_def path_join_def)
    qed
  qed
qed

section \<open>The start time of an iperf3 run\<close>

lemma strptime_error: "strptime s = Inl e \<Longrightarrow> e = ValueError"
  by (auto simp: strptime_def split: list.splits if_splits prod.splits)

lemma timestamp_token_error: "timestamp_token f ext = Inl e \<Longrightarrow> e = IndexError"
  by (auto simp: timestamp_token_def Let_def split: if_splits)

lemma filename_time_error:
  "ebind (timestamp_token f ext) strptime = Inl e \<Longrightarrow> e = IndexError \<or> e = ValueError"
  by (cases "timestamp_token f ext")
    (auto dest: strptime_error timestamp_token_error)

lemma iperf_start_time_filename:
  assumes "json_time_field data = Inl KeyError \<or> json_time_field data = Inr (JStr s)"
  shows "iperf_start_time w filename data = ebind (timestamp_token filename ''.json'') strptime"
proof (cases "ebind (timestamp_token filename ''.json'') strptime")
  case (Inl e)
  then have e: "e = IndexError \<or> e = ValueError"
    by (rule filename_time_error)
  from Inl have inner: "ebind (timestamp_token filename ''.json'') (\<lambda>t. ebind (strptime t) Inr) = Inl e"
    by (cases "timestamp_token filename ''.json''") (auto simp: ebind_def split: sum.splits)
  from assms show ?thesis
    using e Inl inner by (auto simp: iperf_start_time_def strptime_gmt_def)
next
  case (Inr t)
  then have inner: "ebind (timestamp_token filename ''.json'') (\<lambda>t. ebind (strptime t) Inr) = Inr t"
    by (cases "timestamp_token filename ''.json''") (auto simp: ebind_def split: sum.splits)
  from assms show ?thesis
    using Inr inner by (auto simp: iperf_start_time_def strptime_gmt_def)
qed

section \<open>The empty bucket\<close>

text \<open>
  Claim C7. For the empty list of values \<open>calc_stats\<close> returns the literal string
  made of 0.0, a space, the plus-minus sign, a space and 0.0.
\<close>

theorem calc_stats_empty: "calc_stats fl [] = Inr (''0.0 '' @ [CHR 0xB1] @ '' 0.0'')"
  by (simp add: calc_stats_def plus_minus_def)

section \<open>Samples past midnight\<close>



section \<open>One iperf3 file with one interval\<close>

lemma token_120000:
  "ebind (timestamp_token ''wlan1_iperf3_throughput_20250605_120000.json'' ''.json'') strptime
     = Inr \<lparr>year = 2025, month = 6, day = 5, hour = 12, minute = 0, second = 0\<rparr>"
  by code_simp

lemma name_120000:
  "str_contains ''iperf3_throughput'' ''wlan1_iperf3_throughput_20250605_120000.json''"
  "interface_of ''wlan1_iperf3_throughput_20250605_120000.json'' = Some ''wlan1''"
  "CHR ''/'' \<notin> set ''wlan1_iperf3_throughput_20250605_120000.json''"
  by code_simp+

lemma single_interval_run:
  assumes "listdir w directory = Inr [''wlan1_iperf3_throughput_20250605_120000.json'']"
    and "load_json w (path_join directory ''wlan1_iperf3_throughput_20250605_120000.json'')
           = Inr data"
    and "json_time_field data = Inl KeyError \<or> json_time_field data = Inr (JStr s)"
    and "py_getitem data ''intervals'' = Inr (JArr [interval])"
    and "py_getitem interval ''sum'' = Inr sm"
    and "py_getitem sm ''start'' = Inr (JNum 0)"
    and "py_getitem sm ''bits_per_second'' = Inr (JNum 100000000)"
  shows "process_files w directory (parse_iperf_file w) ''iperf3_throughput''
           = Inr (initial_data(''wlan1'' \<mapsto> empty_sections(''12h-17h59'' \<mapsto> [100])), [])"
proof -
  let ?name = "''wlan1_iperf3_throughput_20250605_120000.json''"
  let ?t = "\<lparr>year = 2025, month = 6, day = 5, hour = 12, minute = 0, second = 0\<rparr>"
  have smp: "interval_sample interval = Inr (JNum 0, 100)"
    by (simp add: interval_sample_def assms(5,6,7) py_truediv_def)
  have body: "iperf_body w (path_join directory ?name) = Inr (?t, [(JNum 0, 100)])"
    by (simp add: iperf_body_def basename_path_join [OF name_120000(3)] assms(2,4)
        iperf_start_time_filename [OF assms(3)] token_120000 py_iter_def smp)
  have parse: "parse_iperf_file w (path_join directory ?name) = (Some ?t, [(JNum 0, 100)], [])"
    by (simp add: parse_iperf_file_def body)
  have sec: "seconds_since_midnight ?t (JNum 0) = Inr 43200"
    by (simp add: seconds_since_midnight_def)
  have gts: "get_time_section 43200 = Some ''12h-17h59''"
    by (simp add: get_time_section_cases)
  have app: "append_bucket initial_data ''wlan1'' ''12h-17h59'' 100
      = Inr (initial_data(''wlan1'' \<mapsto> empty_sections(''12h-17h59'' \<mapsto> [100])))"
    by (simp add: append_bucket_def initial_data_def empty_sections_def)
  have samples: "process_samples ?t ''wlan1'' [(JNum 0, 100)] initial_data
      = Inr (initial_data(''wlan1'' \<mapsto> empty_sections(''12h-17h59'' \<mapsto> [100])))"
    by (simp add: sec gts app)
  show ?thesis
    by (simp add: process_files_def assms(1) name_120000(1,2) parse samples
        del: process_samples.simps)
qed


lemma example_iperf_run:
  "process_files example_iperf_world example_iperf_dir (parse_iperf_file example_iperf_world)
     ''iperf3_throughput''
   = Inr (initial_data(''wlan1'' \<mapsto> empty_sections(''12h-17h59'' \<mapsto> [100])), [])"
  using single_interval_run
    [of example_iperf_world example_iperf_dir example_iperf_content "[]"
        "JObj [(''sum'', JObj [(''start'', JNum 0), (''bits_per_second'', JNum 100000000)])]"
        "JObj [(''start'', JNum 0), (''bits_per_second'', JNum 100000000)]"]
  by (simp add: example_iperf_world_def example_iperf_name_def example_iperf_content_def
      single_file_world_def json_time_field_def py_getitem_def)

text \<open>
  Claim C8. A directory whose only entry is
  wlan1_iperf3_throughput_20250605_120000.json, a JSON file whose \<open>intervals\<close> hold one
  interval with \<open>sum.start = 0\<close> and \<open>sum.bits_per_second = 100000000\<close> (and whose
  embedded time field is absent or a string), gives the buckets in which
  (wlan1, 12h-17h59) is the list [100] and every other bucket is empty, and prints
  nothing.
\<close>

theorem iperf_single_interval_bucket:
  assumes "listdir w directory = Inr [''wlan1_iperf3_throughput_20250605_120000.json'']"
    and "load_json w (path_join directory ''wlan1_iperf3_throughput_20250605_120000.json'')
           = Inr data"
    and "json_time_field data = Inl KeyError \<or> json_time_field data = Inr (JStr s)"
    and "py_getitem data ''intervals'' = Inr (JArr [interval])"
    and "py_getitem interval ''sum'' = Inr sm"
    and "py_getitem sm ''start'' = Inr (JNum 0)"
    and "py_getitem sm ''bits_per_second'' = Inr (JNum 100000000)"
  shows "process_files w directory (parse_iperf_file w) ''iperf3_throughput''
           = Inr (initial_data(''wlan1'' \<mapsto> empty_sections(''12h-17h59'' \<mapsto> [100])), [])"
  using assms by (rule single_interval_run)

theorem iperf_single_interval_bucket_witness:
  "process_files example_iperf_world example_iperf_dir (parse_iperf_file example_iperf_world)
     ''iperf3_throughput''
   = Inr (initial_data(''wlan1'' \<mapsto> empty_sections(''12h-17h59'' \<mapsto> [100])), [])"
  using iperf_single_interval_bucket
    [of example_iperf_world example_iperf_dir example_iperf_content "[]"
        "JObj [(''sum'', JObj [(''start'', JNum 0), (''bits_per_second'', JNum 100000000)])]"
        "JObj [(''start'', JNum 0), (''bits_per_second'', JNum 100000000)]"]
  by (simp add: example_iperf_world_def example_iperf_name_def example_iperf_content_def
      single_file_world_def json_time_field_def py_getitem_def)

section \<open>Where the values of a bucket come from\<close>

lemma wrap_day_id: "0 \<le> v \<Longrightarrow> v < 86400 \<Longrightarrow> wrap_day v = v"
proof -
  assume "0 \<le> v" "v < 86400"
  then have "\<lfloor>v / 86400\<rfloor> = 0" by (simp add: floor_eq_iff)
  then show ?thesis by (simp add: wrap_day_def)
qed

lemma get_time_section_in_section:
  assumes "seconds_since_midnight start_time sec = Inr v"
    and "get_time_section v = Some section"
  shows "sample_in_section start_time sec section"
proof -
  from assms(2) have "0 \<le> v \<and> v < 86400"
    by (auto simp: get_time_section_cases split: if_splits)
  then have w: "wrap_day v = v" by (simp add: wrap_day_id)
  from assms(2) show ?thesis
    by (auto simp: sample_in_section_def assms(1) w get_time_section_cases TIME_SECTIONS_def
        split: if_splits)
qed

lemma append_bucket_origin:
  assumes "append_bucket data interface section t = Inr data'"
    and "lookup_bucket data' i s = Inr xs'"
    and "x \<in> set xs'"
  shows "(\<exists>xs. lookup_bucket data i s = Inr xs \<and> x \<in> set xs) \<or>
         (i = interface \<and> s = section \<and> x = t)"
  using assms
  by (auto simp: append_bucket_def lookup_bucket_def split: option.splits if_splits)

lemma process_samples_origin:
  assumes "process_samples start_time interface throughputs data = Inr data'"
    and "lookup_bucket data' i s = Inr xs'"
    and "x \<in> set xs'"
  shows "(\<exists>xs. lookup_bucket data i s = Inr xs \<and> x \<in> set xs) \<or>
         (i = interface \<and>
          (\<exists>sec. (sec, x) \<in> set throughputs \<and> sample_in_section start_time sec s))"
  using assms
proof (induction throughputs arbitrary: data)
  case Nil
  then show ?case by auto
next
  case (Cons smp rest)
  obtain sec t where smp: "smp = (sec, t)" by (cases smp)
  from Cons.prems(1) obtain v where v: "seconds_since_midnight start_time sec = Inr v"
    by (cases "seconds_since_midnight start_time sec") (auto simp: smp)
  show ?case
  proof (cases "get_time_section v")
    case None
    with Cons.prems v have "process_samples start_time interface rest data = Inr data'"
      by (simp add: smp)
    from Cons.IH [OF this Cons.prems(2,3)] show ?thesis by auto
  next
    case (Some lab)
    show ?thesis
    proof (cases "lab = []")
      case True
      with Cons.prems v Some have "process_samples start_time interface rest data = Inr data'"
        by (simp add: smp)
      from Cons.IH [OF this Cons.prems(2,3)] show ?thesis by auto
    next
      case False
      with Cons.prems(1) v Some obtain d1 where
        d1: "append_bucket data interface lab t = Inr d1" and
        rest: "process_samples start_time interface rest d1 = Inr data'"
        by (cases "append_bucket data interface lab t") (auto simp: smp)
      from Cons.IH [OF rest Cons.prems(2,3)]
      show ?thesis
      proof
        assume "\<exists>xs. lookup_bucket d1 i s = Inr xs \<and> x \<in> set xs"
        then obtain xs where xs: "lookup_bucket d1 i s = Inr xs" "x \<in> set xs" by blast
        from append_bucket_origin [OF d1 xs] show ?thesis
        proof
          assume "\<exists>xs. lookup_bucket data i s = Inr xs \<and> x \<in> set xs"
          then show ?thesis by blast
        next
          assume "i = interface \<and> s = lab \<and> x = t"
          moreover from this have "sample_in_section start_time sec s"
            using get_time_section_in_section [OF v Some] by simp
          ultimately show ?thesis by (auto simp: smp)
        qed
      next
        assume "i = interface \<and>
          (\<exists>sec. (sec, x) \<in> set rest \<and> sample_in_section start_time sec s)"
        then show ?thesis by auto
      qed
    qed
  qed
qed

lemma process_entries_origin:
  assumes "process_entries parse_func directory file_pattern names (data, out) = Inr (data', out')"
    and "lookup_bucket data' i s = Inr xs'"
    and "x \<in> set xs'"
  shows "(\<exists>xs. lookup_bucket data i s = Inr xs \<and> x \<in> set xs) \<or>
         (\<exists>filename start_time throughputs msgs sec.
            filename \<in> set names \<and> str_contains file_pattern filename \<and>
            parse_func (path_join directory filename) = (Some start_time, throughputs, msgs) \<and>
            interface_of filename = Some i \<and> (sec, x) \<in> set throughputs \<and>
            sample_in_section start_time sec s)"
  using assms
proof (induction names arbitrary: data out)
  case Nil
  then show ?case by auto
next
  case (Cons filename rest)
  let ?P = "\<lambda>ns. \<exists>filename start_time throughputs msgs sec.
            filename \<in> set ns \<and> str_contains file_pattern filename \<and>
            parse_func (path_join directory filename) = (Some start_time, throughputs, msgs) \<and>
            interface_of filename = Some i \<and> (sec, x) \<in> set throughputs \<and>
            sample_in_section start_time sec s"
  have mono: "?P rest \<Longrightarrow> ?P (filename # rest)" by auto
  obtain st tps msgs where pf: "parse_func (path_join directory filename) = (st, tps, msgs)"
    by (cases "parse_func (path_join directory filename)")
  consider (skip) o' where "process_entries parse_func directory file_pattern rest (data, o') = Inr (data', out')"
    | (use) start_time interface d1 o' where "str_contains file_pattern filename"
        "st = Some start_time" "interface_of filename = Some interface"
        "process_samples start_time interface tps data = Inr d1"
        "process_entries parse_func directory file_pattern rest (d1, o') = Inr (data', out')"
    using Cons.prems(1) pf
    by (auto split: if_splits option.splits sum.splits)
  then show ?case
  proof cases
    case skip
    from Cons.IH [OF skip Cons.prems(2,3)] mono show ?thesis by blast
  next
    case use
    from Cons.IH [OF use(5) Cons.prems(2,3)]
    show ?thesis
    proof
      assume "\<exists>xs. lookup_bucket d1 i s = Inr xs \<and> x \<in> set xs"
      then obtain xs where xs: "lookup_bucket d1 i s = Inr xs" "x \<in> set xs" by blast
      from process_samples_origin [OF use(4) xs] show ?thesis
      proof
        assume "\<exists>xs. lookup_bucket data i s = Inr xs \<and> x \<in> set xs"
        then show ?thesis by blast
      next
        assume "i = interface \<and> (\<exists>sec. (sec, x) \<in> set tps \<and> sample_in_section start_time sec s)"
        then have "?P (filename # rest)"
          using use(1,2,3) pf by auto
        then show ?thesis by blast
      qed
    next
      assume "?P rest"
      with mono show ?thesis by blast
    qed
  qed
qed

lemma initial_data_empty: "lookup_bucket initial_data i s = Inr xs \<Longrightarrow> xs = []"
  by (auto simp: lookup_bucket_def initial_data_def empty_sections_def split: if_splits)

text \<open>
  Claim C5. When \<open>process_files\<close> returns, every value in the bucket of an interface
  and a section is the throughput of a sample of a directory entry that matches the file
  pattern, that the parser turned into a run with a start time, and whose name selects
  that interface; the sample's seconds since midnight, wrapped to a single day, lie
  within the section's bounds. A run that fails to parse has no start time, so none of
  its samples is among them.
\<close>

theorem bucket_values_come_from_parsed_runs:
  assumes "process_files w directory parse_func file_pattern = Inr (data, out)"
    and "lookup_bucket data interface section = Inr xs"
    and "x \<in> set xs"
  shows "\<exists>names filename start_time throughputs msgs sec.
           listdir w directory = Inr names \<and> filename \<in> set names \<and>
           str_contains file_pattern filename \<and>
           parse_func (path_join directory filename) = (Some start_time, throughputs, msgs) \<and>
           interface_of filename = Some interface \<and> (sec, x) \<in> set throughputs \<and>
           sample_in_section start_time sec section"
proof -
  from assms(1) obtain names where names: "listdir w directory = Inr names"
    and run: "process_entries parse_func directory file_pattern names (initial_data, []) = Inr (data, out)"
    by (cases "listdir w directory") (auto simp: process_files_def)
  from process_entries_origin [OF run assms(2,3)] initial_data_empty names
  show ?thesis by fastforce
qed

theorem bucket_values_come_from_parsed_runs_witness:
  "\<exists>names filename start_time throughputs msgs sec.
     listdir example_iperf_world example_iperf_dir = Inr names \<and> filename \<in> set names \<and>
     str_contains ''iperf3_throughput'' filename \<and>
     parse_iperf_file example_iperf_world (path_join example_iperf_dir filename)
       = (Some start_time, throughputs, msgs) \<and>
     interface_of filename = Some ''wlan1'' \<and> (sec, 100) \<in> set throughputs \<and>
     sample_in_section start_time sec ''12h-17h59''"
  using bucket_values_come_from_parsed_runs
    [OF example_iperf_run, of "''wlan1''" "''12h-17h59''" "[100]" 100]
  by (simp add: lookup_bucket_def initial_data_def empty_sections_def)

section \<open>A bad throughput token in a qperf file\<close>

lemma scan_lines_bad_float:
  "line \<in> set lines \<Longrightarrow> re_search line = Some (g1, g2) \<Longrightarrow> float_of_token g2 = Inl e \<Longrightarrow>
   \<exists>e'. scan_lines lines acc = Inl e'"
proof (induction lines arbitrary: acc)
  case Nil
  then show ?case by simp
next
  case (Cons l ls)
  show ?case
  proof (cases "l = line")
    case True
    with Cons.prems show ?thesis by simp
  next
    case False
    with Cons.prems have "line \<in> set ls" by simp
    from Cons.IH [OF this Cons.prems(2,3)] show ?thesis
      by (auto split: option.splits sum.splits)
  qed
qed

lemma example_bad_token:
  "re_search ''second 1: 1.2.3 mbit/s'' = Some (''1'', ''1.2.3'')"
  "float_of_token ''1.2.3'' = Inl ValueError"
  by code_simp+

lemma example_good_parse:
  "parse_qperf_file (single_file_world [] example_good_lines JNull) example_qperf_path
     = (Some \<lparr>year = 2025, month = 6, day = 5, hour = 0, minute = 0, second = 0\<rparr>,
        [(JNum 0, 50)], [])"
  by code_simp

text \<open>
  Claim C10. When a file can be read and one of its lines matches the pattern with a
  throughput token that \<open>float\<close> rejects, \<open>parse_qperf_file\<close> returns the failure
  sentinel for the whole file: no start time, the empty sample list, and one
  diagnostic. The samples matched on other lines are not returned.
\<close>

theorem qperf_bad_float_discards_file:
  assumes "read_lines w filepath = Inr lines"
    and "line \<in> set lines"
    and "re_search line = Some (g1, g2)"
    and "float_of_token g2 = Inl e"
  shows "\<exists>e'. parse_qperf_file w filepath = (None, [], [Diagnostic ''qperf'' filepath e'])"
proof -
  from scan_lines_bad_float [OF assms(2,3,4)] obtain e' where "scan_lines lines [] = Inl e'"
    by blast
  then have "\<exists>e''. qperf_body w filepath = Inl e''"
    by (simp add: qperf_body_def Let_def ebind_def assms(1) split: sum.splits)
  then show ?thesis
    by (auto simp: parse_qperf_file_def)
qed

theorem qperf_bad_float_discards_file_witness:
  "(\<exists>e'. parse_qperf_file (single_file_world [] example_bad_lines JNull) example_qperf_path
      = (None, [], [Diagnostic ''qperf'' example_qperf_path e'])) \<and>
   parse_qperf_file (single_file_world [] example_good_lines JNull) example_qperf_path
     = (Some \<lparr>year = 2025, month = 6, day = 5, hour = 0, minute = 0, second = 0\<rparr>,
        [(JNum 0, 50)], [])"
  using qperf_bad_float_discards_file
    [of "single_file_world [] example_bad_lines JNull" example_qperf_path example_bad_lines
        "''second 1: 1.2.3 mbit/s''" "''1''" "''1.2.3''" ValueError]
    example_bad_token example_good_parse
  by (simp add: single_file_world_def example_bad_lines_def)

section \<open>What the parsers do on bad input\<close>

lemma parse_qperf_file_fail_soft:
  "(\<exists>t smp. parse_qperf_file w p = (Some t, smp, [])) \<or>
   (\<exists>e. parse_qperf_file w p = (None, [], [Diagnostic ''qperf'' p e]))"
  by (cases "qperf_body w p") (auto simp: parse_qperf_file_def)

lemma parse_iperf_file_fail_soft:
  "(\<exists>t smp. parse_iperf_file w p = (Some t, smp, [])) \<or>
   (\<exists>e. parse_iperf_file w p = (None, [], [Diagnostic ''iperf3'' p e]))"
  by (cases "iperf_body w p") (auto simp: parse_iperf_file_def)

lemma qperf_bad_timestamp:
  assumes "ebind (timestamp_token (basename p) ''.txt'') strptime = Inl e"
  shows "parse_qperf_file w p = (None, [], [Diagnostic ''qperf'' p e])"
  using assms
  by (cases "timestamp_token (basename p) ''.txt''")
    (auto simp: parse_qperf_file_def qperf_body_def)

lemma qperf_unreadable:
  assumes "read_lines w p = Inl e"
  shows "\<exists>e'. parse_qperf_file w p = (None, [], [Diagnostic ''qperf'' p e'])"
  using assms
  by (auto simp: parse_qperf_file_def qperf_body_def ebind_def split: sum.splits)

lemma iperf_unreadable:
  assumes "load_json w p = Inl e"
  shows "parse_iperf_file w p = (None, [], [Diagnostic ''iperf3'' p e])"
  using assms by (simp add: parse_iperf_file_def iperf_body_def)

lemma iperf_start_time_needs_filename:
  assumes "ebind (timestamp_token filename ''.json'') strptime = Inl e"
  shows "\<exists>e'. iperf_start_time w filename data = Inl e'"
proof -
  from assms have "ebind (timestamp_token filename ''.json'') (\<lambda>t. ebind (strptime t) Inr) = Inl e"
    by (cases "timestamp_token filename ''.json''") (auto simp: ebind_def split: sum.splits)
  then have "\<exists>e'. ebind (json_time_field data) (\<lambda>start_time_str.
        ebind (strptime_gmt w start_time_str) (\<lambda>json_time.
        ebind (timestamp_token filename ''.json'') (\<lambda>filename_time_str.
        ebind (strptime filename_time_str) (\<lambda>filename_time.
        Inr filename_time)))) = Inl e'"
    by (cases "json_time_field data"; cases "strptime_gmt w (projr (json_time_field data))")
      auto
  then show ?thesis
    using assms by (auto simp: iperf_start_time_def)
qed

lemma iperf_bad_timestamp:
  assumes "ebind (timestamp_token (basename p) ''.json'') strptime = Inl e"
  shows "\<exists>e'. parse_iperf_file w p = (None, [], [Diagnostic ''iperf3'' p e'])"
proof (cases "load_json w p")
  case (Inl e0)
  then show ?thesis by (simp add: iperf_unreadable)
next
  case (Inr data)
  from iperf_start_time_needs_filename [OF assms] obtain e' where
    "iperf_start_time w (basename p) data = Inl e'" by blast
  with Inr show ?thesis by (simp add: parse_iperf_file_def iperf_body_def)
qed

lemma iperf_missing_intervals:
  assumes "load_json w p = Inr data" and "py_getitem data ''intervals'' = Inl e"
  shows "\<exists>e'. parse_iperf_file w p = (None, [], [Diagnostic ''iperf3'' p e'])"
  using assms
  by (auto simp: parse_iperf_file_def iperf_body_def ebind_def split: sum.splits)

lemma iperf_samples_bad_interval:
  "interval \<in> set intervals \<Longrightarrow> interval_sample interval = Inl e \<Longrightarrow>
   \<exists>e'. iperf_samples intervals acc = Inl e'"
proof (induction intervals arbitrary: acc)
  case Nil
  then show ?case by simp
next
  case (Cons iv ivs)
  then show ?case
    by (cases "interval_sample iv") auto
qed

lemma iperf_bad_interval:
  assumes "load_json w p = Inr data" and "py_getitem data ''intervals'' = Inr ivs"
    and "py_iter ivs = Inr intervals" and "interval \<in> set intervals"
    and "interval_sample interval = Inl e"
  shows "\<exists>e'. parse_iperf_file w p = (None, [], [Diagnostic ''iperf3'' p e'])"
proof -
  from iperf_samples_bad_interval [OF assms(4,5)] obtain e' where
    "iperf_samples intervals [] = Inl e'" by blast
  with assms(1,2,3) show ?thesis
    by (auto simp: parse_iperf_file_def iperf_body_def ebind_def split: sum.splits)
qed

lemma bad_throughput_field:
  assumes "py_getitem interval ''sum'' = Inr sm" and "py_getitem sm ''start'' = Inr sec"
    and "py_getitem sm ''bits_per_second'' = Inr bps"
    and "bps = JNull \<or> bps = JStr t \<or> bps = JArr xs \<or> bps = JObj kvs"
  shows "interval_sample interval = Inl TypeError"
  using assms by (auto simp: interval_sample_def py_truediv_def)

lemma unchecked_offset_field:
  assumes "py_getitem interval ''sum'' = Inr sm" and "py_getitem sm ''start'' = Inr sec"
    and "py_getitem sm ''bits_per_second'' = Inr (JNum r)"
  shows "interval_sample interval = Inr (sec, r / 1000000)"
  using assms by (simp add: interval_sample_def py_truediv_def)

lemma iperf_start_time_is_filename_time:
  assumes "load_json w p = Inr data"
    and "json_time_field data = Inl KeyError \<or> json_time_field data = Inr (JStr s)"
    and "ebind (timestamp_token (basename p) ''.json'') strptime = Inr t"
    and "py_getitem data ''intervals'' = Inr ivs"
    and "py_iter ivs = Inr intervals"
    and "iperf_samples intervals [] = Inr smp"
  shows "parse_iperf_file w p = (Some t, smp, [])"
  by (simp add: parse_iperf_file_def iperf_body_def assms(1,3,4,5,6)
      iperf_start_time_filename [OF assms(2)])

lemma example_path: "basename (path_join example_iperf_dir example_iperf_name) = example_iperf_name"
  by (rule basename_path_join) (simp add: example_iperf_name_def)

lemma example_token:
  "ebind (timestamp_token example_iperf_name ''.json'') strptime
     = Inr \<lparr>year = 2025, month = 6, day = 5, hour = 12, minute = 0, second = 0\<rparr>"
  by (simp add: example_iperf_name_def token_120000)

lemma example_listdir:
  "listdir (single_file_world example_iperf_name ls c) d = Inr [example_iperf_name]"
  by (simp add: single_file_world_def)

lemma example_name:
  "str_contains ''iperf3_throughput'' example_iperf_name"
  "interface_of example_iperf_name = Some ''wlan1''"
  by (simp_all add: example_iperf_name_def name_120000)

lemma bad_offset_parse:
  "parse_iperf_file (single_file_world example_iperf_name [] example_bad_offset_content)
     (path_join example_iperf_dir example_iperf_name)
   = (Some \<lparr>year = 2025, month = 6, day = 5, hour = 12, minute = 0, second = 0\<rparr>,
      [(JStr ''abc'', 100)], [])"
proof -
  have tf: "json_time_field example_bad_offset_content = Inl KeyError"
    by (simp add: json_time_field_def example_bad_offset_content_def py_getitem_def)
  show ?thesis
    by (simp add: parse_iperf_file_def iperf_body_def example_path single_file_world_def
        iperf_start_time_filename [of _ "[]"] tf example_token)
      (simp add: example_bad_offset_content_def py_getitem_def py_iter_def interval_sample_def
        py_truediv_def)
qed

text \<open>
  Claim C4. Neither parser lets an exception pass: each returns a start time with the
  samples, or the failure sentinel with one diagnostic (the lemmas above, for an
  unreadable file, a bad filename timestamp, missing intervals and a bad throughput
  field). A malformed offset is not among the failures: the iperf3 parser stores the
  value under \<open>sum.start\<close> as it is. On the file whose offset is the string abc it
  returns the start time and the sample (abc, 100), with no diagnostic, and the
  aggregator then raises \<open>TypeError\<close> when it adds the offset to the seconds of the
  start time, which ends the run instead of continuing with the next file.
\<close>

theorem iperf_bad_offset_aborts_run:
  "parse_iperf_file (single_file_world example_iperf_name [] example_bad_offset_content)
     (path_join example_iperf_dir example_iperf_name)
   = (Some \<lparr>year = 2025, month = 6, day = 5, hour = 12, minute = 0, second = 0\<rparr>,
      [(JStr ''abc'', 100)], []) \<and>
   process_files (single_file_world example_iperf_name [] example_bad_offset_content)
     example_iperf_dir
     (parse_iperf_file (single_file_world example_iperf_name [] example_bad_offset_content))
     ''iperf3_throughput''
   = Inl TypeError"
proof -
  have "process_files (single_file_world example_iperf_name [] example_bad_offset_content)
     example_iperf_dir
     (parse_iperf_file (single_file_world example_iperf_name [] example_bad_offset_content))
     ''iperf3_throughput'' = Inl TypeError"
    by (simp add: process_files_def example_listdir example_name bad_offset_parse
        seconds_since_midnight_def)
  with bad_offset_parse show ?thesis by simp
qed

text \<open>
  Claim C6. The filename of the example carries the timestamp 2025-06-05 12:00:00, yet on
  the content whose \<open>start.timestamp.time\<close> is the number 12345 the parser returns the
  failure sentinel: \<open>strptime\<close> raises \<open>TypeError\<close> on a value that is not a string,
  the inner handler catches \<open>KeyError\<close> and \<open>ValueError\<close> only, and the outer one
  drops the file. Lemma \<open>iperf_start_time_is_filename_time\<close> is the part that holds:
  with the field absent or any string, the start time is the filename's.
\<close>

theorem iperf_nonstring_time_drops_file:
  "ebind (timestamp_token example_iperf_name ''.json'') strptime
     = Inr \<lparr>year = 2025, month = 6, day = 5, hour = 12, minute = 0, second = 0\<rparr> \<and>
   parse_iperf_file (single_file_world example_iperf_name [] example_bad_time_content)
     (path_join example_iperf_dir example_iperf_name)
   = (None, [], [Diagnostic ''iperf3'' (path_join example_iperf_dir example_iperf_name) TypeError])"
proof -
  have tf: "json_time_field example_bad_time_content = Inr (JNum 12345)"
    by (simp add: json_time_field_def example_bad_time_content_def py_getitem_def)
  have "iperf_start_time w f example_bad_time_content = Inl TypeError" for w f
    by (simp add: iperf_start_time_def tf strptime_gmt_def)
  then show ?thesis
    by (simp add: parse_iperf_file_def iperf_body_def single_file_world_def example_token)
qed



section \<open>The text of the statistics\<close>




lemma exact_mean_is_spec: "xs \<noteq> [] \<Longrightarrow>
  fl_div exact_floatlib (fl_sum exact_floatlib xs) (length xs) = spec_mean xs"
  by (simp add: exact_floatlib_def spec_mean_def)

lemma exact_stdev_is_spec:
  "2 \<le> length xs \<Longrightarrow> fl_stdev exact_floatlib xs = Inr (spec_sample_stddev xs)"
  by (simp add: exact_floatlib_def exact_stdev_def spec_sample_stddev_def spec_mean_def Let_def
      of_nat_diff)




section \<open>The two reports\<close>

lemma split_char_append_sep:
  "c \<notin> set a \<Longrightarrow> split_char c (a @ c # rest) = a # split_char c rest"
  by (induction a) auto

lemma split_char_lines:
  "list_all (\<lambda>l. c \<notin> set l) ls \<Longrightarrow>
   split_char c (concat (map (\<lambda>l. l @ [c]) ls)) = ls @ [[]]"
  by (induction ls) (simp_all add: split_char_append_sep)

lemma csv_reader_lines:
  assumes "list_all (\<lambda>l. CHR 0x0A \<notin> set l) ls"
  shows "csv_reader (concat (map (\<lambda>l. l @ [CHR 0x0A]) ls)) = map (split_char CHR '','') ls"
  by (simp add: csv_reader_def Let_def split_char_lines [OF assms])

lemma split_csv_fields:
  assumes "CHR '','' \<notin> set s" "CHR '','' \<notin> set a" "CHR '','' \<notin> set b"
    "CHR '','' \<notin> set c" "CHR '','' \<notin> set d"
  shows "split_char CHR '','' (s @ '','' @ a @ '','' @ b @ '','' @ c @ '','' @ d) = [s, a, b, c, d]"
  using assms by (simp add: split_char_append_sep split_char_no_sep)

lemma table_row_text:
  "table_row s (a, b, c, d) =
     s @ replicate (14 - length s) CHR '' '' @ '' | '' @
     (replicate ((16 - length a) div 2) CHR '' '' @ a @
      replicate (16 - length a - (16 - length a) div 2) CHR '' '') @ '' | '' @
     (replicate ((16 - length b) div 2) CHR '' '' @ b @
      replicate (16 - length b - (16 - length b) div 2) CHR '' '') @ '' | '' @
     (replicate ((16 - length c) div 2) CHR '' '' @ c @
      replicate (16 - length c - (16 - length c) div 2) CHR '' '') @ '' | '' @
     (replicate ((16 - length d) div 2) CHR '' '' @ d @
      replicate (16 - length d - (16 - length d) div 2) CHR '' '')"
  by (simp add: table_row_def ljust_def center_def Let_def)

lemma row_stats_Some:
  "section_texts fl q i s = Some cells \<Longrightarrow> row_stats fl q i s = Inr cells"
  by (auto simp: section_texts_def stat_text_def row_stats_def ebind_def split: sum.splits)

lemma row_stats_None:
  "section_texts fl q i s = None \<Longrightarrow> \<exists>e. row_stats fl q i s = Inl e"
  by (auto simp: section_texts_def stat_text_def row_stats_def ebind_def split: sum.splits)

lemma table_rows_prefix:
  "fst (table_rows fl q i secs out)
     = out @ map (\<lambda>s. table_row s (the (section_texts fl q i s)))
         (takeWhile (\<lambda>s. section_texts fl q i s \<noteq> None) secs) \<and>
   (snd (table_rows fl q i secs out) = None)
     = (takeWhile (\<lambda>s. section_texts fl q i s \<noteq> None) secs = secs)"
proof (induction secs arbitrary: out)
  case Nil
  then show ?case by simp
next
  case (Cons s rest)
  show ?case
  proof (cases "section_texts fl q i s")
    case None
    from row_stats_None [OF this] obtain e where "row_stats fl q i s = Inl e" by blast
    with None show ?thesis by simp
  next
    case (Some cells)
    from row_stats_Some [OF this] Some Cons.IH [of "out @ [table_row s cells]"]
    show ?thesis by (cases cells) auto
  qed
qed

lemma csv_rows_prefix:
  "fst (csv_rows fl q i secs f)
     = f @ concat (map (\<lambda>s. csv_row s (the (section_texts fl q i s)))
         (takeWhile (\<lambda>s. section_texts fl q i s \<noteq> None) secs)) \<and>
   (snd (csv_rows fl q i secs f) = None)
     = (takeWhile (\<lambda>s. section_texts fl q i s \<noteq> None) secs = secs)"
proof (induction secs arbitrary: f)
  case Nil
  then show ?case by simp
next
  case (Cons s rest)
  show ?case
  proof (cases "section_texts fl q i s")
    case None
    from row_stats_None [OF this] obtain e where "row_stats fl q i s = Inl e" by blast
    with None show ?thesis by simp
  next
    case (Some cells)
    from row_stats_Some [OF this] Some Cons.IH [of "f @ csv_row s cells"]
    show ?thesis by (cases cells) auto
  qed
qed

lemma calc_stats_no_sep:
  assumes "\<And>x. c \<notin> set (fl_str fl x)" and "c \<notin> set ''0.0''" and "c \<notin> set plus_minus"
    and "calc_stats fl xs = Inr t"
  shows "c \<notin> set t"
proof (cases "xs = []")
  case True
  with assms(2,3,4) show ?thesis by (auto simp: calc_stats_def)
next
  case False
  with assms(4) obtain sd where
    "t = fl_str fl (fl_round fl (fl_div fl (fl_sum fl xs) (length xs)) 2) @ plus_minus @
         fl_str fl (fl_round fl sd 2)"
    by (auto simp: calc_stats_def Let_def ebind_def split: sum.splits if_splits)
  with assms(1,3) show ?thesis by simp
qed

lemma stat_text_no_sep:
  assumes "\<And>x. CHR '','' \<notin> set (fl_str fl x) \<and> CHR 0x0A \<notin> set (fl_str fl x)"
    and "stat_text fl data interface s = Inr t"
  shows "CHR '','' \<notin> set t \<and> CHR 0x0A \<notin> set t"
proof -
  from assms(2) obtain xs where c: "calc_stats fl xs = Inr t"
    by (auto simp: stat_text_def split: sum.splits)
  have "CHR '','' \<notin> set t"
    by (rule calc_stats_no_sep [OF _ _ _ c]) (simp_all add: assms(1) plus_minus_def)
  moreover have "CHR 0x0A \<notin> set t"
    by (rule calc_stats_no_sep [OF _ _ _ c]) (simp_all add: assms(1) plus_minus_def)
  ultimately show ?thesis by simp
qed

lemma section_texts_no_sep:
  assumes "\<And>x. CHR '','' \<notin> set (fl_str fl x) \<and> CHR 0x0A \<notin> set (fl_str fl x)"
    and "section_texts fl q i s = Some (a, b, c, d)"
  shows "(CHR '','' \<notin> set a \<and> CHR 0x0A \<notin> set a) \<and> (CHR '','' \<notin> set b \<and> CHR 0x0A \<notin> set b) \<and>
         (CHR '','' \<notin> set c \<and> CHR 0x0A \<notin> set c) \<and> (CHR '','' \<notin> set d \<and> CHR 0x0A \<notin> set d)"
proof -
  from assms(2) have
    "stat_text fl q ''wlan0'' s = Inr a" "stat_text fl q ''wlan1'' s = Inr b"
    "stat_text fl i ''wlan0'' s = Inr c" "stat_text fl i ''wlan1'' s = Inr d"
    by (auto simp: section_texts_def split: sum.splits)
  then show ?thesis
    using stat_text_no_sep [OF assms(1)] by blast
qed


lemma labels: "map fst TIME_SECTIONS = [''0h-5h59'', ''6h-11h59'', ''12h-17h59'', ''18h-23h59'']"
  by (simp add: TIME_SECTIONS_def)

lemma has_buckets_initial: "has_buckets initial_data"
  by (simp add: has_buckets_def labels lookup_bucket_def initial_data_def empty_sections_def)

lemma append_bucket_keeps:
  assumes "append_bucket data interface lab t = Inr data'"
    and "lookup_bucket data i s = Inr xs"
  shows "\<exists>ys. lookup_bucket data' i s = Inr ys"
  using assms
  by (auto simp: append_bucket_def lookup_bucket_def split: option.splits if_splits)

lemma has_buckets_append:
  assumes "append_bucket data interface lab t = Inr data'" and "has_buckets data"
  shows "has_buckets data'"
proof -
  have "case lookup_bucket data' i s of Inl e \<Rightarrow> False | Inr xs \<Rightarrow> True"
    if "case lookup_bucket data i s of Inl e \<Rightarrow> False | Inr xs \<Rightarrow> True" for i s
  proof -
    from that obtain xs where "lookup_bucket data i s = Inr xs"
      by (cases "lookup_bucket data i s") auto
    from append_bucket_keeps [OF assms(1) this] show ?thesis by auto
  qed
  with assms(2) show ?thesis
    by (simp add: has_buckets_def list_all_iff)
qed

lemma has_buckets_samples:
  "process_samples start_time interface throughputs data = Inr data' \<Longrightarrow> has_buckets data \<Longrightarrow>
   has_buckets data'"
proof (induction throughputs arbitrary: data)
  case Nil
  then show ?case by simp
next
  case (Cons smp rest)
  obtain sec t where smp: "smp = (sec, t)" by (cases smp)
  from Cons.prems(1) consider
    (skip) "process_samples start_time interface rest data = Inr data'"
    | (add) lab d1 where "append_bucket data interface lab t = Inr d1"
        "process_samples start_time interface rest d1 = Inr data'"
    by (auto simp: smp split: sum.splits option.splits if_splits)
  then show ?case
  proof cases
    case skip
    from Cons.IH [OF skip Cons.prems(2)] show ?thesis .
  next
    case add
    from Cons.IH [OF add(2) has_buckets_append [OF add(1) Cons.prems(2)]] show ?thesis .
  qed
qed

lemma has_buckets_entries:
  "process_entries parse_func directory file_pattern names (data, out) = Inr (data', out') \<Longrightarrow>
   has_buckets data \<Longrightarrow> has_buckets data'"
proof (induction names arbitrary: data out)
  case Nil
  then show ?case by simp
next
  case (Cons filename rest)
  obtain st tps msgs where pf: "parse_func (path_join directory filename) = (st, tps, msgs)"
    by (cases "parse_func (path_join directory filename)")
  from Cons.prems(1) pf consider
    (skip) o' where "process_entries parse_func directory file_pattern rest (data, o') = Inr (data', out')"
    | (use) start_time interface d1 o' where
        "process_samples start_time interface tps data = Inr d1"
        "process_entries parse_func directory file_pattern rest (d1, o') = Inr (data', out')"
    by (auto split: if_splits option.splits sum.splits)
  then show ?case
  proof cases
    case skip
    from Cons.IH [OF skip Cons.prems(2)] show ?thesis .
  next
    case use
    from Cons.IH [OF use(2) has_buckets_samples [OF use(1) Cons.prems(2)]] show ?thesis .
  qed
qed

lemma has_buckets_process_files:
  assumes "process_files w directory parse_func file_pattern = Inr (data, out)"
  shows "has_buckets data"
proof -
  from assms obtain names where
    "process_entries parse_func directory file_pattern names (initial_data, []) = Inr (data, out)"
    by (cases "listdir w directory") (auto simp: process_files_def)
  from has_buckets_entries [OF this has_buckets_initial] show ?thesis .
qed

lemma calc_stats_returns:
  assumes "\<And>xs. 2 \<le> length xs \<Longrightarrow> \<exists>v. fl_stdev fl xs = Inr v"
  shows "\<exists>t. calc_stats fl xs = Inr t"
proof (cases "2 \<le> length xs")
  case True
  from assms [OF this] obtain v where "fl_stdev fl xs = Inr v" by blast
  with True show ?thesis by (auto simp: calc_stats_def Let_def)
next
  case False
  then show ?thesis by (auto simp: calc_stats_def Let_def)
qed

lemma aggregated_sections_complete:
  assumes "process_files w1 dir1 pf1 pat1 = Inr (qperf_data, out1)"
    and "process_files w2 dir2 pf2 pat2 = Inr (iperf_data, out2)"
    and "\<And>xs. 2 \<le> length xs \<Longrightarrow> \<exists>v. fl_stdev fl xs = Inr v"
  shows "takeWhile (\<lambda>s. section_texts fl qperf_data iperf_data s \<noteq> None)
           (map fst TIME_SECTIONS) = map fst TIME_SECTIONS"
proof -
  have st: "\<exists>t. stat_text fl d f s = Inr t"
    if "has_buckets d" "f = ''wlan0'' \<or> f = ''wlan1''" "s \<in> set (map fst TIME_SECTIONS)"
    for d f s
  proof -
    from that
    have "case lookup_bucket d f s of Inl e \<Rightarrow> False | Inr xs \<Rightarrow> True"
      by (auto simp: has_buckets_def list_all_iff)
    then obtain xs where "lookup_bucket d f s = Inr xs"
      by (cases "lookup_bucket d f s") auto
    with calc_stats_returns [OF assms(3), of xs] show ?thesis
      by (simp add: stat_text_def)
  qed
  note hq = has_buckets_process_files [OF assms(1)]
  note hi = has_buckets_process_files [OF assms(2)]
  have "section_texts fl qperf_data iperf_data s \<noteq> None"
    if "s \<in> set (map fst TIME_SECTIONS)" for s
  proof -
    note mem = that
    obtain a where a: "stat_text fl qperf_data ''wlan0'' s = Inr a"
      using st [OF hq _ mem] by blast
    obtain b where b: "stat_text fl qperf_data ''wlan1'' s = Inr b"
      using st [OF hq _ mem] by blast
    obtain c where c: "stat_text fl iperf_data ''wlan0'' s = Inr c"
      using st [OF hi _ mem] by blast
    obtain d where d: "stat_text fl iperf_data ''wlan1'' s = Inr d"
      using st [OF hi _ mem] by blast
    show ?thesis by (simp add: section_texts_def a b c d)
  qed
  then show ?thesis
    by (simp only: takeWhile_eq_all_conv) blast
qed

lemma digit_char_digit: "d < 10 \<Longrightarrow> digit_char d \<in> set ''0123456789''"
  unfolding digit_char_def by (rule nth_mem) simp

lemma str_nat_chars: "set (str_nat n) \<subseteq> set ''0123456789''"
proof (induction n rule: str_nat.induct)
  case (1 n)
  show ?case
  proof (cases "n < 10")
    case True
    then show ?thesis
      using digit_char_digit [of n] by (subst str_nat.simps) simp
  next
    case False
    have "n mod 10 < 10" by simp
    from digit_char_digit [OF this] 1 [OF False] False show ?thesis
      by (subst str_nat.simps) simp
  qed
qed

lemma decimal_str_chars: "set (decimal_str x) \<subseteq> set ''0123456789.-''"
proof -
  have a: "hundredths x mod 100 div 10 < 10" by simp
  have b: "hundredths x mod 100 mod 10 < 10" by simp
  have d: "set ''0123456789'' \<subseteq> set ''0123456789.-''" by simp
  have 1: "set (str_nat (hundredths x div 100)) \<subseteq> set ''0123456789.-''"
    using str_nat_chars d by (rule subset_trans)
  have 2: "digit_char (hundredths x mod 100 div 10) \<in> set ''0123456789.-''"
    using digit_char_digit [OF a] d by (rule subsetD [rotated])
  have 3: "digit_char (hundredths x mod 100 mod 10) \<in> set ''0123456789.-''"
    using digit_char_digit [OF b] d by (rule subsetD [rotated])
  have 4: "CHR ''-'' \<in> set ''0123456789.-''" "CHR ''.'' \<in> set ''0123456789.-''"
    by simp_all
  show ?thesis
    unfolding decimal_str_def Let_def using 1 2 3 4 by auto
qed

lemma decimal_str_no_sep:
  "CHR '','' \<notin> set (fl_str exact_floatlib x) \<and> CHR 0x0A \<notin> set (fl_str exact_floatlib x)"
proof -
  have "CHR '','' \<notin> set ''0123456789.-''" "CHR 0x0A \<notin> set ''0123456789.-''" by simp_all
  with decimal_str_chars [of x] show ?thesis
    by (auto simp: exact_floatlib_def)
qed

lemma example_calc:
  "calc_stats exact_floatlib [] = Inr text_empty"
  "calc_stats exact_floatlib [100] = Inr text_hundred"
proof -
  have t: "decimal_str (exact_round 100 2) = ''100.0''" "decimal_str (exact_round 0 2) = ''0.0''"
    by code_simp+
  show "calc_stats exact_floatlib [] = Inr text_empty"
    by (simp add: calc_stats_def text_empty_def plus_minus_def)
  show "calc_stats exact_floatlib [100] = Inr text_hundred"
    by (simp add: calc_stats_def exact_floatlib_def t text_hundred_def plus_minus_def)
qed

lemma example_section_texts:
  "section_texts exact_floatlib example_buckets example_buckets ''0h-5h59''
     = Some (text_empty, text_empty, text_empty, text_empty)"
  "section_texts exact_floatlib example_buckets example_buckets ''6h-11h59''
     = Some (text_empty, text_empty, text_empty, text_empty)"
  "section_texts exact_floatlib example_buckets example_buckets ''12h-17h59''
     = Some (text_empty, text_hundred, text_empty, text_hundred)"
  "section_texts exact_floatlib example_buckets example_buckets ''18h-23h59''
     = Some (text_empty, text_empty, text_empty, text_empty)"
  by (simp_all add: section_texts_def stat_text_def lookup_bucket_def example_buckets_def
      initial_data_def empty_sections_def example_calc)

lemma example_lengths: "length text_empty = 9" "length text_hundred = 11"
  by (simp_all add: text_empty_def text_hundred_def)

text \<open>
  Claim C9. For every float library whose texts of numbers hold no comma and no newline
  (as Python's do), every pair of bucket structures and an output file that can be
  opened: let the completed sections be those, in the order of \<open>TIME_SECTIONS\<close>, up to
  the first one for which a bucket is missing or \<open>calc_stats\<close> raises (for structures
  that \<open>process_files\<close> returned and a \<open>statistics.stdev\<close> that does not raise these
  are all four, lemma \<open>aggregated_sections_complete\<close>). Then \<open>print_table\<close> prints its
  header and, for each completed section, the line made of the label padded to 14
  characters and the four formatted strings of the section, each centred in 16
  characters and preceded by a bar; and the text that \<open>save_to_csv\<close> wrote, split into
  lines and at the commas, is the header cells and, row for row, the label of the
  section and the same four strings. Both stop at the same section.
\<close>

theorem csv_round_trip:
  fixes fl :: "real floatlib"
  assumes texts: "\<And>x. CHR '','' \<notin> set (fl_str fl x) \<and> CHR 0x0A \<notin> set (fl_str fl x)"
    and opens: "open_write w
           (path_join (path_join (home w) ''build-qperf'') ''wifi_throughput_stats.csv'') = None"
  shows "\<exists>text.
     (let done = takeWhile (\<lambda>s. section_texts fl qperf_data iperf_data s \<noteq> None)
                   (map fst TIME_SECTIONS);
          pad = (\<lambda>t. replicate ((16 - length t) div 2) CHR '' '' @ t @
                       replicate (16 - length t - (16 - length t) div 2) CHR '' '')
      in
        fst (print_table fl qperf_data iperf_data)
          = table_header @
            map (\<lambda>s. case the (section_texts fl qperf_data iperf_data s) of
                        (a, b, c, d) \<Rightarrow>
                          s @ replicate (14 - length s) CHR '' '' @ '' | '' @
                          pad a @ '' | '' @ pad b @ '' | '' @ pad c @ '' | '' @ pad d) done \<and>
        fst (save_to_csv w fl qperf_data iperf_data) = Some text \<and>
        csv_reader text
          = [''Time Section'', ''wlan0 qperf (Mbps)'', ''wlan1 qperf (Mbps)'',
             ''wlan0 iperf3 (Mbps)'', ''wlan1 iperf3 (Mbps)'']
            # map (\<lambda>s. case the (section_texts fl qperf_data iperf_data s) of
                          (a, b, c, d) \<Rightarrow> [s, a, b, c, d]) done \<and>
        (snd (print_table fl qperf_data iperf_data) = None) = (done = map fst TIME_SECTIONS) \<and>
        (snd (save_to_csv w fl qperf_data iperf_data) = None) = (done = map fst TIME_SECTIONS))"
proof -
  let ?hdr = "''Time Section,wlan0 qperf (Mbps),wlan1 qperf (Mbps),wlan0 iperf3 (Mbps),wlan1 iperf3 (Mbps)''"
  define labs where "labs = map fst TIME_SECTIONS"
  define st where "st s = the (section_texts fl qperf_data iperf_data s)" for s
  define dn where "dn = takeWhile (\<lambda>s. section_texts fl qperf_data iperf_data s \<noteq> None) labs"
  define pad where "pad t = replicate ((16 - length t) div 2) CHR '' '' @ t @
      replicate (16 - length t - (16 - length t) div 2) CHR '' ''" for t :: string
  define line where "line s = (case st s of (a, b, c, d) \<Rightarrow>
      s @ '','' @ a @ '','' @ b @ '','' @ c @ '','' @ d)" for s
  define body where "body = concat (map (\<lambda>l. l @ [CHR 0x0A]) (?hdr # map line dn))"
  have dn_ok: "s \<in> set labs \<and> section_texts fl qperf_data iperf_data s = Some (st s)"
    if "s \<in> set dn" for s
  proof -
    from that have "s \<in> set labs" "section_texts fl qperf_data iperf_data s \<noteq> None"
      unfolding dn_def by (auto dest: set_takeWhileD)
    then show ?thesis by (auto simp: st_def)
  qed
  have lab_chars: "CHR '','' \<notin> set s \<and> CHR 0x0A \<notin> set s" if "s \<in> set labs" for s
    using that by (auto simp: labs_def labels)
  have tab: "table_row s (st s) = (case st s of (a, b, c, d) \<Rightarrow>
      s @ replicate (14 - length s) CHR '' '' @ '' | '' @
      pad a @ '' | '' @ pad b @ '' | '' @ pad c @ '' | '' @ pad d)" for s
    by (cases "st s") (simp add: table_row_text pad_def)
  have p1: "fst (print_table fl qperf_data iperf_data)
      = table_header @ map (\<lambda>s. case st s of (a, b, c, d) \<Rightarrow>
          s @ replicate (14 - length s) CHR '' '' @ '' | '' @
          pad a @ '' | '' @ pad b @ '' | '' @ pad c @ '' | '' @ pad d) dn"
    using table_rows_prefix [of fl qperf_data iperf_data labs table_header]
    by (simp add: print_table_def labs_def [symmetric] dn_def st_def [symmetric] tab)
  have p2: "(snd (print_table fl qperf_data iperf_data) = None) = (dn = labs)"
    using table_rows_prefix [of fl qperf_data iperf_data labs table_header]
    by (simp add: print_table_def labs_def [symmetric] dn_def)
  have row: "csv_row s (st s) = line s @ [CHR 0x0A]" for s
    by (cases "st s") (simp add: csv_row_def line_def)
  have "fst (csv_rows fl qperf_data iperf_data labs csv_header)
      = csv_header @ concat (map (\<lambda>s. csv_row s (st s)) dn)"
    using csv_rows_prefix [of fl qperf_data iperf_data labs csv_header]
    unfolding dn_def st_def by (rule conjunct1)
  also have "csv_header @ concat (map (\<lambda>s. csv_row s (st s)) dn) = body"
    by (simp add: row body_def csv_header_def comp_def)
  finally have c0: "fst (csv_rows fl qperf_data iperf_data labs csv_header) = body" .
  have c1: "fst (save_to_csv w fl qperf_data iperf_data) = Some body"
    using c0 by (auto simp: save_to_csv_def opens labs_def [symmetric] split: prod.splits)
  have c2: "(snd (save_to_csv w fl qperf_data iperf_data) = None) = (dn = labs)"
    using csv_rows_prefix [of fl qperf_data iperf_data labs csv_header]
    by (auto simp: save_to_csv_def opens labs_def [symmetric] dn_def split: prod.splits)
  have line_ok: "CHR 0x0A \<notin> set (line s) \<and>
      split_char CHR '','' (line s) = (case st s of (a, b, c, d) \<Rightarrow> [s, a, b, c, d])"
    if "s \<in> set dn" for s
  proof -
    obtain a b c d where c: "st s = (a, b, c, d)" by (cases "st s")
    from dn_ok [OF that] c have "section_texts fl qperf_data iperf_data s = Some (a, b, c, d)"
      by simp
    from section_texts_no_sep [OF texts this] have
      nc: "CHR '','' \<notin> set a" "CHR '','' \<notin> set b" "CHR '','' \<notin> set c" "CHR '','' \<notin> set d"
      and nn: "CHR 0x0A \<notin> set a" "CHR 0x0A \<notin> set b" "CHR 0x0A \<notin> set c" "CHR 0x0A \<notin> set d"
      by blast+
    from dn_ok [OF that] have ls: "CHR '','' \<notin> set s" "CHR 0x0A \<notin> set s"
      using lab_chars by blast+
    from ls(2) nn have "CHR 0x0A \<notin> set (line s)"
      by (simp add: line_def c)
    moreover from ls(1) nc have "split_char CHR '','' (line s) = [s, a, b, c, d]"
      unfolding line_def c prod.case by (rule split_csv_fields)
    ultimately show ?thesis by (simp add: c)
  qed
  have hdr: "CHR 0x0A \<notin> set ?hdr" by simp
  have hdr_cells: "split_char CHR '','' ?hdr
      = [''Time Section'', ''wlan0 qperf (Mbps)'', ''wlan1 qperf (Mbps)'',
         ''wlan0 iperf3 (Mbps)'', ''wlan1 iperf3 (Mbps)'']"
    by code_simp
  have "list_all (\<lambda>l. CHR 0x0A \<notin> set l) (map line dn)"
    unfolding list_all_iff using line_ok by (simp only: set_map ball_simps) blast
  with hdr have "list_all (\<lambda>l. CHR 0x0A \<notin> set l) (?hdr # map line dn)"
    by simp
  from csv_reader_lines [OF this]
  have "csv_reader body = split_char CHR '','' ?hdr # map (split_char CHR '','') (map line dn)"
    by (simp only: body_def list.map)
  also have "map (split_char CHR '','') (map line dn)
      = map (\<lambda>s. case st s of (a, b, c, d) \<Rightarrow> [s, a, b, c, d]) dn"
    unfolding map_map comp_def
    by (rule map_cong [OF refl]) (simp add: line_ok)
  finally have c3: "csv_reader body
      = [''Time Section'', ''wlan0 qperf (Mbps)'', ''wlan1 qperf (Mbps)'',
         ''wlan0 iperf3 (Mbps)'', ''wlan1 iperf3 (Mbps)'']
        # map (\<lambda>s. case st s of (a, b, c, d) \<Rightarrow> [s, a, b, c, d]) dn"
    by (simp only: hdr_cells)
  note defs = dn_def labs_def st_def pad_def
  note q1 = p1 [unfolded defs] and q2 = p2 [unfolded defs] and q3 = c1
    and q4 = c2 [unfolded defs] and q5 = c3 [unfolded defs]
  show ?thesis
    unfolding Let_def
    by (rule exI [of _ body]) (intro conjI q1 q2 q3 q4 q5)
qed


theorem csv_round_trip_witness:
  "\<exists>text.
     fst (print_table exact_floatlib example_buckets example_buckets)
       = table_header @
         [''0h-5h59'' @ replicate 7 CHR '' '' @ '' | '' @
            replicate 3 CHR '' '' @ text_empty @ replicate 4 CHR '' '' @ '' | '' @
            replicate 3 CHR '' '' @ text_empty @ replicate 4 CHR '' '' @ '' | '' @
            replicate 3 CHR '' '' @ text_empty @ replicate 4 CHR '' '' @ '' | '' @
            replicate 3 CHR '' '' @ text_empty @ replicate 4 CHR '' '',
          ''6h-11h59'' @ replicate 6 CHR '' '' @ '' | '' @
            replicate 3 CHR '' '' @ text_empty @ replicate 4 CHR '' '' @ '' | '' @
            replicate 3 CHR '' '' @ text_empty @ replicate 4 CHR '' '' @ '' | '' @
            replicate 3 CHR '' '' @ text_empty @ replicate 4 CHR '' '' @ '' | '' @
            replicate 3 CHR '' '' @ text_empty @ replicate 4 CHR '' '',
          ''12h-17h59'' @ replicate 5 CHR '' '' @ '' | '' @
            replicate 3 CHR '' '' @ text_empty @ replicate 4 CHR '' '' @ '' | '' @
            replicate 2 CHR '' '' @ text_hundred @ replicate 3 CHR '' '' @ '' | '' @
            replicate 3 CHR '' '' @ text_empty @ replicate 4 CHR '' '' @ '' | '' @
            replicate 2 CHR '' '' @ text_hundred @ replicate 3 CHR '' '',
          ''18h-23h59'' @ replicate 5 CHR '' '' @ '' | '' @
            replicate 3 CHR '' '' @ text_empty @ replicate 4 CHR '' '' @ '' | '' @
            replicate 3 CHR '' '' @ text_empty @ replicate 4 CHR '' '' @ '' | '' @
            replicate 3 CHR '' '' @ text_empty @ replicate 4 CHR '' '' @ '' | '' @
            replicate 3 CHR '' '' @ text_empty @ replicate 4 CHR '' ''] \<and>
     fst (save_to_csv example_iperf_world exact_floatlib example_buckets example_buckets)
       = Some text \<and>
     csv_reader text
       = [[''Time Section'', ''wlan0 qperf (Mbps)'', ''wlan1 qperf (Mbps)'',
           ''wlan0 iperf3 (Mbps)'', ''wlan1 iperf3 (Mbps)''],
          [''0h-5h59'', text_empty, text_empty, text_empty, text_empty],
          [''6h-11h59'', text_empty, text_empty, text_empty, text_empty],
          [''12h-17h59'', text_empty, text_hundred, text_empty, text_hundred],
          [''18h-23h59'', text_empty, text_empty, text_empty, text_empty]] \<and>
     snd (print_table exact_floatlib example_buckets example_buckets) = None \<and>
     snd (save_to_csv example_iperf_world exact_floatlib example_buckets example_buckets) = None"
proof -
  have o: "open_write example_iperf_world
      (path_join (path_join (home example_iperf_world) ''build-qperf'')
         ''wifi_throughput_stats.csv'') = None"
    by (simp add: example_iperf_world_def single_file_world_def)
  from csv_round_trip [of exact_floatlib example_iperf_world example_buckets example_buckets,
      OF decimal_str_no_sep o]
  show ?thesis
    unfolding Let_def labels
    by (simp add: example_section_texts example_lengths)
qed

end
